theory Spec2Isabelle
  imports Complex_Main "HOL-Library.Multiset"
begin

section \<open>Python values and variant records\<close>

text \<open>
  Python integers are \<^typ>\<open>int\<close>. Python floats are modelled as exact rationals:
  rounding error, infinities and NaN are outside the model. The value assigned to an INFO
  field of a variant record is kept as a \<open>pyval\<close>.
\<close>

datatype py_error = IndexError | TypeError | ZeroDivisionError | SystemExit int

datatype pyval = PNone | PBool bool | PInt int | PFloat rat | PStr string

text \<open>
  A variant record (pysam's \<open>VariantRecord\<close>), with the attributes the code reads and its
  INFO mapping. \<open>alts\<close> is \<open>None\<close> for a record with no alternate allele.
\<close>

record entry =
  chrom :: string
  start :: int
  stop :: int
  ref :: string
  alts :: "string list option"
  info :: "string \<rightharpoonup> pyval"

text \<open>\<open>int(x)\<close> of a float truncates towards zero.\<close>

definition py_int :: "rat \<Rightarrow> int" where
  "py_int x = (if 0 \<le> x then \<lfloor>x\<rfloor> else \<lceil>x\<rceil>)"

text \<open>\<open>round(x, n)\<close>: to \<open>n\<close> decimals, a tie going to the even neighbour.\<close>

definition round_half_even :: "rat \<Rightarrow> int" where
  "round_half_even x =
     (let f = \<lfloor>x\<rfloor>; d = x - of_int f in
      if d < 1 / 2 then f
      else if 1 / 2 < d then f + 1
      else if even f then f else f + 1)"

definition py_round :: "rat \<Rightarrow> nat \<Rightarrow> rat" where
  "py_round x n = of_int (round_half_even (x * 10 ^ n)) / 10 ^ n"

section \<open>MatchResult\<close>

text \<open>
  The per-pair scoring record. The class itself lives outside the two files verified
  here; its attributes are the ones \<open>bench.py\<close> reads and writes. A genotype is a tuple
  of allele indices, \<open>None\<close> standing for a missing allele.
\<close>

record MatchResult =
  base :: "entry option"
  comp :: "entry option"
  base_gt :: "int option list option"
  base_gt_count :: int
  comp_gt :: "int option list option"
  comp_gt_count :: int
  state :: bool
  seqsim :: "rat option"
  sizesim :: "rat option"
  ovlpct :: "rat option"
  sizediff :: "rat option"
  st_dist :: "int option"
  ed_dist :: "int option"
  gt_match :: "int option"
  multi :: bool
  score :: "rat option"
  matid :: "string option"

definition opt_val :: "('a \<Rightarrow> pyval) \<Rightarrow> 'a option \<Rightarrow> pyval" where
  "opt_val f v = (case v of None \<Rightarrow> PNone | Some x \<Rightarrow> f x)"

section \<open>bench.py: annotate_entry\<close>

text \<open>
  \<open>annotate_entry(entry, match, header)\<close> writes ten INFO fields in place; the model
  returns the updated record. \<open>entry.translate(header)\<close> only rebinds the record to the
  output header and is left out. \<open>if match.score\<close> is Python truthiness: false for
  \<open>None\<close> and for zero.
\<close>

definition annotate_entry :: "entry \<Rightarrow> MatchResult \<Rightarrow> entry" where
  "annotate_entry e m =
     (let i0 = info e;
          i1 = i0(''PctSeqSimilarity'' \<mapsto> opt_val (\<lambda>x. PFloat (py_round x 4)) (seqsim m));
          i2 = i1(''PctSizeSimilarity'' \<mapsto> opt_val (\<lambda>x. PFloat (py_round x 4)) (sizesim m));
          i3 = i2(''PctRecOverlap'' \<mapsto> opt_val (\<lambda>x. PFloat (py_round x 4)) (ovlpct m));
          i4 = i3(''SizeDiff'' \<mapsto> opt_val PFloat (sizediff m));
          i5 = i4(''StartDistance'' \<mapsto> opt_val PInt (st_dist m));
          i6 = i5(''EndDistance'' \<mapsto> opt_val PInt (ed_dist m));
          i7 = i6(''GTMatch'' \<mapsto> opt_val PInt (gt_match m));
          i8 = i7(''TruScore'' \<mapsto>
                 (case score m of
                    None \<Rightarrow> PNone
                  | Some x \<Rightarrow> if x = 0 then PNone else PInt (py_int x)));
          i9 = i8(''MatchId'' \<mapsto> opt_val PStr (matid m));
          i10 = i9(''Multi'' \<mapsto> PBool (multi m))
      in e\<lparr>info := i10\<rparr>)"

section \<open>bench.py: StatsBox and BenchOutput.write_match\<close>

record StatsBox =
  TP_base :: int
  TP_comp :: int
  FP :: int
  FN :: int
  precision :: rat
  recall :: rat
  f1 :: rat
  base_cnt :: int
  comp_cnt :: int
  TP_comp_TP_gt :: int
  TP_comp_FP_gt :: int
  TP_base_TP_gt :: int
  TP_base_FP_gt :: int
  gt_concordance :: rat
  gt_matrix :: "string \<Rightarrow> string \<Rightarrow> int"

definition StatsBox_init :: StatsBox where
  "StatsBox_init =
     \<lparr>TP_base = 0, TP_comp = 0, FP = 0, FN = 0, precision = 0, recall = 0, f1 = 0,
      base_cnt = 0, comp_cnt = 0, TP_comp_TP_gt = 0, TP_comp_FP_gt = 0,
      TP_base_TP_gt = 0, TP_base_FP_gt = 0, gt_concordance = 0,
      gt_matrix = (\<lambda>_ _. 0)\<rparr>"

text \<open>Decimal text of an integer, as \<open>str\<close> and f-strings print it.\<close>

definition digit_char :: "nat \<Rightarrow> char" where
  "digit_char d = ''0123456789'' ! d"

fun str_nat :: "nat \<Rightarrow> string" where
  "str_nat n =
     (if n < 10 then [digit_char n]
      else str_nat (n div 10) @ [digit_char (n mod 10)])"

declare str_nat.simps [simp del]

definition str_int :: "int \<Rightarrow> string" where
  "str_int i = (if i < 0 then CHR ''-'' # str_nat (nat (- i)) else str_nat (nat i))"

text \<open>\<open>str\<close> of a genotype: \<open>None\<close>, or a tuple such as \<open>(0, 1)\<close>, \<open>(None, 1)\<close>, \<open>(1,)\<close>.\<close>

definition str_allele :: "int option \<Rightarrow> string" where
  "str_allele a = (case a of None \<Rightarrow> ''None'' | Some i \<Rightarrow> str_int i)"

fun join_comma :: "string list \<Rightarrow> string" where
  "join_comma [] = []"
| "join_comma [x] = x"
| "join_comma (x # y # zs) = x @ '', '' @ join_comma (y # zs)"

definition str_gt :: "int option list option \<Rightarrow> string" where
  "str_gt g =
     (case g of
        None \<Rightarrow> ''None''
      | Some [a] \<Rightarrow> ''('' @ str_allele a @ '',)''
      | Some as \<Rightarrow> ''('' @ join_comma (map str_allele as) @ '')'')"

text \<open>
  The writer's state: the stats box and the records written so far to the four output
  files, oldest first.
\<close>

record BenchOutput =
  stats_box :: StatsBox
  tpb_out :: "entry list"
  tpc_out :: "entry list"
  fn_out :: "entry list"
  fp_out :: "entry list"

definition BenchOutput_init :: BenchOutput where
  "BenchOutput_init =
     \<lparr>stats_box = StatsBox_init, tpb_out = [], tpc_out = [], fn_out = [], fp_out = []\<rparr>"

text \<open>
  The base half of \<open>write_match\<close> (\<open>if match.base:\<close>). A variant record is always
  truthy, so the test is whether the side is present.
\<close>

definition write_base :: "BenchOutput \<Rightarrow> MatchResult \<Rightarrow> BenchOutput" where
  "write_base out m =
     (case base m of
        None \<Rightarrow> out
      | Some b \<Rightarrow>
          (let box = stats_box out;
               box1 = box\<lparr>base_cnt := base_cnt box + 1\<rparr>;
               b' = annotate_entry b m
           in if state m then
                (let gtBase = str_gt (base_gt m);
                     gtComp = str_gt (comp_gt m);
                     gm = gt_matrix box1;
                     box2 = box1\<lparr>gt_matrix := gm(gtBase := (gm gtBase)(gtComp := gm gtBase gtComp + 1))\<rparr>;
                     box3 = box2\<lparr>TP_base := TP_base box2 + 1\<rparr>;
                     box4 = (if gt_match m = Some 0
                             then box3\<lparr>TP_base_TP_gt := TP_base_TP_gt box3 + 1\<rparr>
                             else box3\<lparr>TP_base_FP_gt := TP_base_FP_gt box3 + 1\<rparr>)
                 in out\<lparr>stats_box := box4, tpb_out := tpb_out out @ [b']\<rparr>)
              else
                out\<lparr>stats_box := box1\<lparr>FN := FN box1 + 1\<rparr>, fn_out := fn_out out @ [b']\<rparr>))"

text \<open>
  The comp half (\<open>if match.comp:\<close>). \<open>entry_size\<close> is \<open>truvari.entry_size\<close>, defined
  outside these files and taken as a parameter; the code applies it to the record it has
  just annotated.
\<close>

definition write_comp ::
  "(entry \<Rightarrow> int) \<Rightarrow> BenchOutput \<Rightarrow> MatchResult \<Rightarrow> int \<Rightarrow> BenchOutput" where
  "write_comp entry_size out m sizemin =
     (case comp m of
        None \<Rightarrow> out
      | Some c \<Rightarrow>
          (let box = stats_box out;
               c' = annotate_entry c m
           in if state m then
                (let box1 = box\<lparr>comp_cnt := comp_cnt box + 1\<rparr>;
                     box2 = box1\<lparr>TP_comp := TP_comp box1 + 1\<rparr>;
                     box3 = (if gt_match m = Some 0
                             then box2\<lparr>TP_comp_TP_gt := TP_comp_TP_gt box2 + 1\<rparr>
                             else box2\<lparr>TP_comp_FP_gt := TP_comp_FP_gt box2 + 1\<rparr>)
                 in out\<lparr>stats_box := box3, tpc_out := tpc_out out @ [c']\<rparr>)
              else if sizemin \<le> entry_size c' then
                (let box1 = box\<lparr>comp_cnt := comp_cnt box + 1\<rparr>;
                     box2 = box1\<lparr>FP := FP box1 + 1\<rparr>
                 in out\<lparr>stats_box := box2, fp_out := fp_out out @ [c']\<rparr>)
              else out))"

definition write_match ::
  "(entry \<Rightarrow> int) \<Rightarrow> BenchOutput \<Rightarrow> MatchResult \<Rightarrow> int \<Rightarrow> BenchOutput" where
  "write_match entry_size out m sizemin =
     write_comp entry_size (write_base out m) m sizemin"

text \<open>
  The loop of \<open>Bench.run\<close> over the MatchResults the chunks yield: with \<open>--extend\<close>, an
  unmatched comp outside the original regions is dropped from the result before it is
  written. \<open>include\<close> is \<open>regions.include\<close>, a parameter.
\<close>

definition run_step ::
  "(entry \<Rightarrow> int) \<Rightarrow> (entry \<Rightarrow> bool) \<Rightarrow> int \<Rightarrow> int \<Rightarrow> BenchOutput \<Rightarrow> MatchResult \<Rightarrow> BenchOutput" where
  "run_step entry_size include extend_bp sizemin out m =
     (let m' = (case comp m of
                  None \<Rightarrow> m
                | Some c \<Rightarrow> if extend_bp \<noteq> 0 \<and> \<not> state m \<and> \<not> include c
                            then m\<lparr>comp := None\<rparr> else m)
      in write_match entry_size out m' sizemin)"

definition run_matches ::
  "(entry \<Rightarrow> int) \<Rightarrow> (entry \<Rightarrow> bool) \<Rightarrow> int \<Rightarrow> int \<Rightarrow> MatchResult list \<Rightarrow> BenchOutput" where
  "run_matches entry_size include extend_bp sizemin ms =
     foldl (run_step entry_size include extend_bp sizemin) BenchOutput_init ms"

section \<open>bench.py: parse_args\<close>

text \<open>
  The namespace \<open>argparse\<close> returns, with the options \<open>bench.py\<close> declares. An option
  whose default is \<open>None\<close> is an \<open>option\<close>.
\<close>

record args =
  a_base :: string
  a_comp :: string
  a_output :: string
  a_reference :: "string option"
  a_debug :: bool
  a_prog :: bool
  a_refdist :: int
  a_pctseq :: rat
  a_minhaplen :: int
  a_pctsize :: rat
  a_pctovl :: rat
  a_typeignore :: bool
  a_dup_to_ins :: bool
  a_use_lev :: bool
  a_chunksize :: int
  a_gtcomp :: bool
  a_bSample :: "string option"
  a_cSample :: "string option"
  a_sizemin :: int
  a_sizefilt :: "int option"
  a_sizemax :: int
  a_passonly :: bool
  a_no_ref :: "string option"
  a_includebed :: "string option"
  a_extend :: int
  a_multimatch :: bool

text \<open>Truthiness of an optional string: present and not empty.\<close>

definition truthy_str :: "string option \<Rightarrow> bool" where
  "truthy_str s = (case s of None \<Rightarrow> False | Some t \<Rightarrow> t \<noteq> [])"

text \<open>
  \<open>parse_args\<close> after \<open>parser.parse_args(args)\<close>. The parser itself is \<open>argparse\<close>
  (\<open>parser\<close>: the namespace, or the exit it raises), \<open>defaults_sizefilt\<close> is
  \<open>truvari.Matcher.make_match_params().sizefilt\<close> and \<open>abspath\<close> is \<open>os.path.abspath\<close>;
  all three are parameters.
\<close>

definition parse_args ::
  "(string list \<Rightarrow> py_error + args) \<Rightarrow> int \<Rightarrow> (string \<Rightarrow> string) \<Rightarrow> string list
     \<Rightarrow> py_error + args" where
  "parse_args parser defaults_sizefilt abspath cmdargs =
     (case parser cmdargs of
        Inl e \<Rightarrow> Inl e
      | Inr ns \<Rightarrow>
          (let a1 = (if a_sizefilt ns = None then
                       (if a_sizemin ns < defaults_sizefilt
                        then ns\<lparr>a_sizefilt := Some (a_sizemin ns)\<rparr>
                        else ns\<lparr>a_sizefilt := Some defaults_sizefilt\<rparr>)
                     else ns);
               a2 = a1\<lparr>a_base := abspath (a_base a1)\<rparr>;
               a3 = a2\<lparr>a_comp := abspath (a_comp a2)\<rparr>;
               a4 = a3\<lparr>a_includebed :=
                       (if truthy_str (a_includebed a3)
                        then map_option abspath (a_includebed a3) else a_includebed a3)\<rparr>;
               a5 = a4\<lparr>a_reference :=
                       (if truthy_str (a_reference a4)
                        then map_option abspath (a_reference a4) else a_reference a4)\<rparr>
           in Inr a5))"

section \<open>bench.py: check_params, check_sample, check_inputs, bench_main\<close>

text \<open>
  What the checks read from the outside world: \<open>os.path.isdir\<close>, \<open>os.path.exists\<close> and
  the sample names in the header of the VCF at a path (\<open>pysam.VariantFile(fn).header.samples\<close>).
\<close>

record world =
  isdir :: "string \<Rightarrow> bool"
  path_exists :: "string \<Rightarrow> bool"
  header_samples :: "string \<Rightarrow> string list"

definition endswith :: "string \<Rightarrow> string \<Rightarrow> bool" where
  "endswith s suf = (length suf \<le> length s \<and> drop (length s - length suf) s = suf)"

text \<open>
  One check of \<open>check_params\<close>: \<open>if cond: logging.error(msg); check_fail = True\<close>. The
  state is the messages logged so far and the flag.
\<close>

definition check :: "bool \<Rightarrow> string \<Rightarrow> string list \<times> bool \<Rightarrow> string list \<times> bool" where
  "check cond msg st = (if cond then (fst st @ [msg], True) else st)"

definition check_params :: "world \<Rightarrow> args \<Rightarrow> string list \<times> bool" where
  "check_params w a =
     (let s0 = ([], False);
          s1 = check (a_chunksize a < a_refdist a) ''--chunksize must be >= --refdist'' s0;
          s2 = check (a_extend a \<noteq> 0 \<and> a_includebed a = None)
                 ''--extend can only be used when --includebed is set'' s1;
          s3 = check (isdir w (a_output a))
                 (''Output directory '' @ [CHR 0x27] @ a_output a @ [CHR 0x27] @ '' already exists'') s2;
          s4 = check (\<not> path_exists w (a_comp a)) (''File '' @ a_comp a @ '' does not exist'') s3;
          s5 = check (\<not> path_exists w (a_base a)) (''File '' @ a_base a @ '' does not exist'') s4;
          s6 = check (\<not> endswith (a_comp a) ''.gz'')
                 (''Comparison vcf '' @ a_comp a @ '' does not end with .gz. Must be bgzip'' @ [CHR 0x27] @ ''d'') s5;
          s7 = check (\<not> path_exists w (a_comp a @ ''.tbi''))
                 (''Comparison vcf index '' @ a_comp a @ ''.tbi does not exist. Must be indexed'') s6;
          s8 = check (\<not> endswith (a_base a) ''.gz'')
                 (''Base vcf '' @ a_base a @ '' does not end with .gz. Must be bgzip'' @ [CHR 0x27] @ ''d'') s7;
          s9 = check (\<not> path_exists w (a_base a @ ''.tbi''))
                 (''Base vcf index '' @ a_base a @ ''.tbi does not exist. Must be indexed'') s8;
          s10 = (case a_includebed a of
                   None \<Rightarrow> s9
                 | Some bed \<Rightarrow>
                     check (bed \<noteq> [] \<and> \<not> path_exists w bed)
                       (''Include bed '' @ bed @ '' does not exist'') s9);
          s11 = (case a_reference a of
                   None \<Rightarrow> s10
                 | Some fa \<Rightarrow>
                     check (fa \<noteq> [] \<and> \<not> path_exists w fa)
                       (''Reference '' @ fa @ '' does not exist'') s10)
      in s11)"

text \<open>
  \<open>check_sample(vcf_fn, sample_id)\<close>: the messages it logs, and either the exception
  it raises or the pair it returns. \<open>header.samples[0]\<close> on a header without sample
  columns raises \<open>IndexError\<close>.
\<close>

definition check_sample ::
  "world \<Rightarrow> string \<Rightarrow> string option \<Rightarrow> string list \<times> (py_error + bool \<times> string)" where
  "check_sample w vcf_fn sample_id =
     (let samples = header_samples w vcf_fn;
          s0 = ([], False);
          s1 = (case sample_id of
                  None \<Rightarrow> s0
                | Some sid \<Rightarrow>
                    check (sid \<notin> set samples)
                      (''Sample '' @ sid @ '' not found in vcf ('' @ vcf_fn @ '')'') s0);
          s2 = check (length samples = 0)
                 (''No SAMPLE columns found in vcf ('' @ vcf_fn @ '')'') s1
      in case sample_id of
           None \<Rightarrow>
             (case samples of
                [] \<Rightarrow> (fst s2, Inl IndexError)
              | x # _ \<Rightarrow> (fst s2, Inr (snd s2, x)))
         | Some sid \<Rightarrow> (fst s2, Inr (snd s2, sid)))"

definition check_inputs :: "world \<Rightarrow> args \<Rightarrow> string list \<times> (py_error + bool \<times> args)" where
  "check_inputs w a =
     (case check_sample w (a_base a) (a_bSample a) of
        (log1, Inl e) \<Rightarrow> (log1, Inl e)
      | (log1, Inr (b_check, bs)) \<Rightarrow>
          (let a1 = a\<lparr>a_bSample := Some bs\<rparr> in
           case check_sample w (a_comp a1) (a_cSample a1) of
             (log2, Inl e) \<Rightarrow> (log1 @ log2, Inl e)
           | (log2, Inr (c_check, cs)) \<Rightarrow>
               (log1 @ log2, Inr (b_check \<or> c_check, a1\<lparr>a_cSample := Some cs\<rparr>))))"

text \<open>
  \<open>bench_main\<close>: what reaches stderr before the run, and how the call ends: an exception
  (\<open>SystemExit 100\<close> for \<open>sys.exit(100)\<close>) or the result of the run. \<open>run_bench\<close> stands
  for everything after the checks (building the matcher, \<open>Bench.run\<close>, the final log
  lines). \<open>check_params(args) or check_inputs(args)\<close> evaluates \<open>check_inputs\<close> only when
  \<open>check_params\<close> returned false.
\<close>

definition couldnt_run :: string where
  "couldnt_run = ''Couldn'' @ [CHR 0x27] @ ''t run Truvari. Please fix parameters'' @ [CHR 0x0A]"

definition bench_main ::
  "(string list \<Rightarrow> py_error + args) \<Rightarrow> int \<Rightarrow> (string \<Rightarrow> string) \<Rightarrow> world \<Rightarrow> (args \<Rightarrow> 'r)
     \<Rightarrow> string list \<Rightarrow> string list \<times> (py_error + 'r)" where
  "bench_main parser defaults_sizefilt abspath w run_bench cmdargs =
     (case parse_args parser defaults_sizefilt abspath cmdargs of
        Inl e \<Rightarrow> ([], Inl e)
      | Inr a \<Rightarrow>
          (case check_params w a of
             (log1, True) \<Rightarrow>
               (log1 @ [couldnt_run], Inl (SystemExit 100))
           | (log1, False) \<Rightarrow>
               (case check_inputs w a of
                  (log2, Inl e) \<Rightarrow> (log1 @ log2, Inl e)
                | (log2, Inr (True, a')) \<Rightarrow>
                    (log1 @ log2 @ [couldnt_run],
                     Inl (SystemExit 100))
                | (log2, Inr (False, a')) \<Rightarrow> (log1 @ log2, Inr (run_bench a')))))"

section \<open>bench.py: Bench.build_matrix\<close>

text \<open>
  Modelled from the spec: \<open>truvari.MatchResult()\<close>, the constructor of a class defined
  outside these files. The spec's data model gives a fresh MatchResult no base, no comp,
  no measured field, a false \<open>state\<close> and an unset \<open>multi\<close> flag.
\<close>

definition MatchResult_init :: MatchResult where
  "MatchResult_init =
     \<lparr>base = None, comp = None, base_gt = None, base_gt_count = 0, comp_gt = None,
      comp_gt_count = 0, state = False, seqsim = None, sizesim = None, ovlpct = None,
      sizediff = None, st_dist = None, ed_dist = None, gt_match = None, multi = False,
      score = None, matid = None\<rparr>"

text \<open>
  \<open>build_matrix\<close> returns a list when one side is empty and a two-dimensional array
  otherwise; \<open>compare_chunk\<close> tells them apart with \<open>isinstance\<close>. Its
  \<open>logging.debug\<close> lines change nothing it returns and are left out.
\<close>

datatype matrix_result = Flat "MatchResult list" | Matrix "MatchResult list list"

text \<open>The loop \<open>for cid, c in enumerate(comp_variants)\<close> of the all-FP case.\<close>

fun build_fps :: "int \<Rightarrow> nat \<Rightarrow> entry list \<Rightarrow> MatchResult list \<Rightarrow> MatchResult list" where
  "build_fps chunk_id cid [] fps = fps"
| "build_fps chunk_id cid (c # cs) fps =
     build_fps chunk_id (Suc cid) cs
       (fps @ [MatchResult_init\<lparr>comp := Some c,
                                 matid := Some (str_int chunk_id @ ''._.'' @ str_nat cid)\<rparr>])"

text \<open>The loop \<open>for bid, b in enumerate(base_variants)\<close> of the all-FN case.\<close>

fun build_fns :: "int \<Rightarrow> nat \<Rightarrow> entry list \<Rightarrow> MatchResult list \<Rightarrow> MatchResult list" where
  "build_fns chunk_id bid [] fns = fns"
| "build_fns chunk_id bid (b # bs) fns =
     build_fns chunk_id (Suc bid) bs
       (fns @ [MatchResult_init\<lparr>base := Some b,
                                 matid := Some (str_int chunk_id @ ''.'' @ str_nat bid @ ''._'')\<rparr>])"

text \<open>
  The nested loops of the all-against-all case. \<open>build_match\<close> is
  \<open>matcher.build_match(b, c, matid)\<close>, the similarity scorer, a parameter.
\<close>

fun build_row ::
  "(entry \<Rightarrow> entry \<Rightarrow> string \<Rightarrow> MatchResult) \<Rightarrow> int \<Rightarrow> nat \<Rightarrow> entry \<Rightarrow> nat \<Rightarrow> entry list
     \<Rightarrow> MatchResult list \<Rightarrow> MatchResult list" where
  "build_row build_match chunk_id bid b cid [] base_matches = base_matches"
| "build_row build_match chunk_id bid b cid (c # cs) base_matches =
     build_row build_match chunk_id bid b (Suc cid) cs
       (base_matches @
          [build_match b c (str_int chunk_id @ ''.'' @ str_nat bid @ ''.'' @ str_nat cid)])"

fun build_rows ::
  "(entry \<Rightarrow> entry \<Rightarrow> string \<Rightarrow> MatchResult) \<Rightarrow> int \<Rightarrow> nat \<Rightarrow> entry list \<Rightarrow> entry list
     \<Rightarrow> MatchResult list list \<Rightarrow> MatchResult list list" where
  "build_rows build_match chunk_id bid [] comp_variants match_matrix = match_matrix"
| "build_rows build_match chunk_id bid (b # bs) comp_variants match_matrix =
     build_rows build_match chunk_id (Suc bid) bs comp_variants
       (match_matrix @ [build_row build_match chunk_id bid b 0 comp_variants []])"

definition build_matrix ::
  "entry list \<Rightarrow> entry list \<Rightarrow> (entry \<Rightarrow> entry \<Rightarrow> string \<Rightarrow> MatchResult) \<Rightarrow> int
     \<Rightarrow> matrix_result" where
  "build_matrix base_variants comp_variants build_match chunk_id =
     (if length base_variants = 0 then Flat (build_fps chunk_id 0 comp_variants [])
      else if length comp_variants = 0 then Flat (build_fns chunk_id 0 base_variants [])
      else Matrix (build_rows build_match chunk_id 0 base_variants comp_variants []))"

section \<open>bench.py: the pickers\<close>

text \<open>
  \<open>str(match.base)\<close>: the text of the variant record (\<open>entry_str\<close>, pysam's rendering,
  a parameter), and \<open>None\<close> for an absent side.
\<close>

definition side_key :: "(entry \<Rightarrow> string) \<Rightarrow> entry option \<Rightarrow> string" where
  "side_key entry_str v = (case v of None \<Rightarrow> ''None'' | Some e \<Rightarrow> entry_str e)"

text \<open>
  \<open>match_matrix.shape\<close> of a two-dimensional array, held as the list of its rows. An
  array with no rows has no elements whatever its second dimension.
\<close>

definition shape :: "'a list list \<Rightarrow> int \<times> int" where
  "shape mat = (int (length mat), (case mat of [] \<Rightarrow> 0 | r # _ \<Rightarrow> int (length r)))"

text \<open>
  The order the loops walk: \<open>np.ravel\<close>, the in-place \<open>sort()\<close> and the reversed view
  \<open>[::-1]\<close>. \<open>np_sort\<close> is numpy's sort under \<open>MatchResult.__lt__\<close>, a parameter.
\<close>

definition walk_order ::
  "(MatchResult list \<Rightarrow> MatchResult list) \<Rightarrow> MatchResult list list \<Rightarrow> MatchResult list" where
  "walk_order np_sort mat = rev (np_sort (concat mat))"

subsection \<open>pick_single_matches\<close>

record single_state =
  s_base_cnt :: int
  s_comp_cnt :: int
  s_used_base :: "string set"
  s_used_comp :: "string set"
  s_ret :: "MatchResult list"

definition single_init :: "MatchResult list list \<Rightarrow> single_state" where
  "single_init mat =
     \<lparr>s_base_cnt = fst (shape mat), s_comp_cnt = snd (shape mat),
      s_used_base = {}, s_used_comp = {}, s_ret = []\<rparr>"

text \<open>The body of the loop, after the \<open>break\<close> test.\<close>

definition single_body :: "(entry \<Rightarrow> string) \<Rightarrow> single_state \<Rightarrow> MatchResult \<Rightarrow> single_state" where
  "single_body entry_str st m =
     (let base_is_used = side_key entry_str (base m) \<in> s_used_base st;
          comp_is_used = side_key entry_str (comp m) \<in> s_used_comp st
      in if s_base_cnt st = 0 \<and> \<not> comp_is_used then
           (let to_process = m\<lparr>base := None, state := False, multi := True\<rparr> in
            st\<lparr>s_comp_cnt := s_comp_cnt st - 1,
               s_used_comp := insert (side_key entry_str (comp to_process)) (s_used_comp st),
               s_ret := s_ret st @ [to_process]\<rparr>)
         else if s_comp_cnt st = 0 \<and> \<not> base_is_used then
           (let to_process = m\<lparr>comp := None, state := False, multi := True\<rparr> in
            st\<lparr>s_base_cnt := s_base_cnt st - 1,
               s_used_base := insert (side_key entry_str (base to_process)) (s_used_base st),
               s_ret := s_ret st @ [to_process]\<rparr>)
         else if \<not> base_is_used \<and> \<not> comp_is_used then
           st\<lparr>s_base_cnt := s_base_cnt st - 1,
              s_used_base := insert (side_key entry_str (base m)) (s_used_base st),
              s_comp_cnt := s_comp_cnt st - 1,
              s_used_comp := insert (side_key entry_str (comp m)) (s_used_comp st),
              s_ret := s_ret st @ [m]\<rparr>
         else st)"

fun single_loop :: "(entry \<Rightarrow> string) \<Rightarrow> single_state \<Rightarrow> MatchResult list \<Rightarrow> single_state" where
  "single_loop entry_str st [] = st"
| "single_loop entry_str st (m # ms) =
     (if s_base_cnt st = 0 \<and> s_comp_cnt st = 0 then st
      else single_loop entry_str (single_body entry_str st m) ms)"

definition pick_single_matches ::
  "(MatchResult list \<Rightarrow> MatchResult list) \<Rightarrow> (entry \<Rightarrow> string) \<Rightarrow> MatchResult list list
     \<Rightarrow> MatchResult list" where
  "pick_single_matches np_sort entry_str match_matrix =
     s_ret (single_loop entry_str (single_init match_matrix) (walk_order np_sort match_matrix))"

text \<open>
  The single-best policy in the words of its description: walking the results in order,
  a result with both sides unused is emitted as it is and both sides are marked used;
  otherwise, when no comp remains and the base is unused, a copy without comp, with a false
  state and the multi flag is emitted and the base marked used; otherwise the same for the
  comp; the walk stops when both remaining counts are zero. Marking a side used takes
  one from its remaining count.
\<close>

definition single_step_described ::
  "(entry \<Rightarrow> string) \<Rightarrow> single_state \<Rightarrow> MatchResult \<Rightarrow> single_state" where
  "single_step_described entry_str st m =
     (let bk = side_key entry_str (base m);
          ck = side_key entry_str (comp m)
      in if bk \<notin> s_used_base st \<and> ck \<notin> s_used_comp st then
           st\<lparr>s_base_cnt := s_base_cnt st - 1, s_comp_cnt := s_comp_cnt st - 1,
              s_used_base := insert bk (s_used_base st),
              s_used_comp := insert ck (s_used_comp st),
              s_ret := s_ret st @ [m]\<rparr>
         else if s_comp_cnt st = 0 \<and> bk \<notin> s_used_base st then
           st\<lparr>s_base_cnt := s_base_cnt st - 1,
              s_used_base := insert bk (s_used_base st),
              s_ret := s_ret st @ [m\<lparr>comp := None, state := False, multi := True\<rparr>]\<rparr>
         else if s_base_cnt st = 0 \<and> ck \<notin> s_used_comp st then
           st\<lparr>s_comp_cnt := s_comp_cnt st - 1,
              s_used_comp := insert ck (s_used_comp st),
              s_ret := s_ret st @ [m\<lparr>base := None, state := False, multi := True\<rparr>]\<rparr>
         else st)"

fun single_walk_described ::
  "(entry \<Rightarrow> string) \<Rightarrow> single_state \<Rightarrow> MatchResult list \<Rightarrow> single_state" where
  "single_walk_described entry_str st [] = st"
| "single_walk_described entry_str st (m # ms) =
     (if s_base_cnt st = 0 \<and> s_comp_cnt st = 0 then st
      else single_walk_described entry_str (single_step_described entry_str st m) ms)"

text \<open>
  A match matrix as \<open>build_matrix\<close> makes it from the base variants \<open>bs\<close> and the comp
  variants \<open>cs\<close>: one row per base, one column per comp, each cell holding its two sides.
\<close>

definition matrix_of :: "entry list \<Rightarrow> entry list \<Rightarrow> MatchResult list list \<Rightarrow> bool" where
  "matrix_of bs cs mat =
     (bs \<noteq> [] \<and> cs \<noteq> [] \<and> length mat = length bs \<and>
      list_all2 (\<lambda>b row. length row = length cs \<and>
                   list_all2 (\<lambda>c m. base m = Some b \<and> comp m = Some c) cs row) bs mat)"

text \<open>\<open>descending lt xs\<close>: no element of \<open>xs\<close> is less than a later one.\<close>

definition descending :: "('a \<Rightarrow> 'a \<Rightarrow> bool) \<Rightarrow> 'a list \<Rightarrow> bool" where
  "descending lt xs = sorted_wrt (\<lambda>x y. \<not> lt x y) xs"

definition ascending :: "('a \<Rightarrow> 'a \<Rightarrow> bool) \<Rightarrow> 'a list \<Rightarrow> bool" where
  "ascending lt xs = sorted_wrt (\<lambda>x y. \<not> lt y x) xs"

subsection \<open>pick_gtcomp_matches\<close>

text \<open>The two \<open>Counter\<close>s read 0 at a key never written.\<close>

record gt_state =
  g_base_cnt :: int
  g_comp_cnt :: int
  g_used_base :: "string \<Rightarrow> int"
  g_used_comp :: "string \<Rightarrow> int"
  g_ret :: "MatchResult list"

definition gt_init :: "MatchResult list list \<Rightarrow> gt_state" where
  "gt_init mat =
     \<lparr>g_base_cnt = fst (shape mat), g_comp_cnt = snd (shape mat),
      g_used_base = (\<lambda>_. 0), g_used_comp = (\<lambda>_. 0), g_ret = []\<rparr>"

definition gt_base_is_used :: "(entry \<Rightarrow> string) \<Rightarrow> gt_state \<Rightarrow> MatchResult \<Rightarrow> bool" where
  "gt_base_is_used entry_str st m =
     (base_gt_count m \<le> g_used_base st (side_key entry_str (base m)))"

definition gt_comp_is_used :: "(entry \<Rightarrow> string) \<Rightarrow> gt_state \<Rightarrow> MatchResult \<Rightarrow> bool" where
  "gt_comp_is_used entry_str st m =
     (comp_gt_count m \<le> g_used_comp st (side_key entry_str (comp m)))"

text \<open>The first branch: only the comp is written.\<close>

definition gt_only_comp :: "(entry \<Rightarrow> string) \<Rightarrow> gt_state \<Rightarrow> MatchResult \<Rightarrow> gt_state" where
  "gt_only_comp entry_str st m =
     (let c_key = side_key entry_str (comp m);
          to_process = m\<lparr>base := None, state := False, multi := True\<rparr>
      in st\<lparr>g_comp_cnt := g_comp_cnt st - 1,
            g_ret := (if g_used_comp st c_key = 0 then g_ret st @ [to_process] else g_ret st),
            g_used_comp := (g_used_comp st)(c_key := 9)\<rparr>)"

text \<open>The second branch: only the base is written.\<close>

definition gt_only_base :: "(entry \<Rightarrow> string) \<Rightarrow> gt_state \<Rightarrow> MatchResult \<Rightarrow> gt_state" where
  "gt_only_base entry_str st m =
     (let b_key = side_key entry_str (base m);
          to_process = m\<lparr>comp := None, state := False, multi := True\<rparr>
      in st\<lparr>g_base_cnt := g_base_cnt st - 1,
            g_ret := (if g_used_base st b_key = 0 then g_ret st @ [to_process] else g_ret st),
            g_used_base := (g_used_base st)(b_key := 9)\<rparr>)"

text \<open>The copy the third branch builds: a side whose counter is not zero is removed.\<close>

definition gt_paired_copy :: "(entry \<Rightarrow> string) \<Rightarrow> gt_state \<Rightarrow> MatchResult \<Rightarrow> MatchResult" where
  "gt_paired_copy entry_str st m =
     (let b_key = side_key entry_str (base m);
          c_key = side_key entry_str (comp m);
          p1 = (if g_used_base st b_key \<noteq> 0 then m\<lparr>base := None\<rparr> else m)
      in if g_used_comp st c_key \<noteq> 0 then p1\<lparr>comp := None\<rparr> else p1)"

text \<open>The third branch: both sides are written.\<close>

definition gt_both :: "(entry \<Rightarrow> string) \<Rightarrow> gt_state \<Rightarrow> MatchResult \<Rightarrow> gt_state" where
  "gt_both entry_str st m =
     (let b_key = side_key entry_str (base m);
          c_key = side_key entry_str (comp m);
          to_process = gt_paired_copy entry_str st m;
          ub = (g_used_base st)(b_key := g_used_base st b_key + comp_gt_count m);
          uc = (g_used_comp st)(c_key := g_used_comp st c_key + base_gt_count m);
          bc = (if base_gt_count m \<le> ub b_key then g_base_cnt st - 1 else g_base_cnt st);
          cc = (if comp_gt_count m \<le> uc c_key then g_comp_cnt st - 1 else g_comp_cnt st)
      in st\<lparr>g_base_cnt := bc, g_comp_cnt := cc, g_used_base := ub, g_used_comp := uc,
            g_ret := (if base to_process \<noteq> None \<or> comp to_process \<noteq> None
                      then g_ret st @ [to_process] else g_ret st)\<rparr>)"

definition gt_body :: "(entry \<Rightarrow> string) \<Rightarrow> gt_state \<Rightarrow> MatchResult \<Rightarrow> gt_state" where
  "gt_body entry_str st m =
     (let base_is_used = gt_base_is_used entry_str st m;
          comp_is_used = gt_comp_is_used entry_str st m
      in if g_base_cnt st = 0 \<and> \<not> comp_is_used then gt_only_comp entry_str st m
         else if g_comp_cnt st = 0 \<and> \<not> base_is_used then gt_only_base entry_str st m
         else if \<not> base_is_used \<and> \<not> comp_is_used then gt_both entry_str st m
         else st)"

fun gt_loop :: "(entry \<Rightarrow> string) \<Rightarrow> gt_state \<Rightarrow> MatchResult list \<Rightarrow> gt_state" where
  "gt_loop entry_str st [] = st"
| "gt_loop entry_str st (m # ms) =
     (if g_base_cnt st = 0 \<and> g_comp_cnt st = 0 then st
      else gt_loop entry_str (gt_body entry_str st m) ms)"

definition pick_gtcomp_matches ::
  "(MatchResult list \<Rightarrow> MatchResult list) \<Rightarrow> (entry \<Rightarrow> string) \<Rightarrow> MatchResult list list
     \<Rightarrow> MatchResult list" where
  "pick_gtcomp_matches np_sort entry_str match_matrix =
     g_ret (gt_loop entry_str (gt_init match_matrix) (walk_order np_sort match_matrix))"

section \<open>annotations/trf.py\<close>

text \<open>
  A motif record of a tandem-repeat region, and a scored one: \<open>m_sc = dict(anno)\<close> with
  the keys \<open>ovl_pct\<close> and \<open>diff\<close> added. The copy is held in \<open>anno\<close>.
\<close>

record motif =
  m_start :: int
  m_end :: int
  period :: int
  copies :: rat
  consize :: int
  pctmat :: int
  pctindel :: int
  m_score :: int
  entropy :: rat
  repeat :: string

record scored =
  anno :: motif
  ovl_pct :: rat
  diff :: rat

record region =
  r_chrom :: string
  r_start :: int
  r_end :: int
  annos :: "motif list"

subsection \<open>compare_scores and the sort\<close>

text \<open>
  \<open>compare_scores(a, b)\<close>. In the last branch the source reads
  \<open>bspan = b['end'] = b['start']\<close>, a chained assignment: \<open>bspan\<close> and \<open>b['end']\<close> both
  receive \<open>b['start']\<close>. The model returns the comparison result together with \<open>b\<close> as
  the call leaves it; \<open>a\<close> is never written.
\<close>

definition compare_scores :: "scored \<Rightarrow> scored \<Rightarrow> int \<times> scored" where
  "compare_scores a b =
     (if ovl_pct b < ovl_pct a then (1, b)
      else if ovl_pct a < ovl_pct b then (- 1, b)
      else if m_score (anno b) < m_score (anno a) then (1, b)
      else if m_score (anno a) < m_score (anno b) then (- 1, b)
      else
        (let aspan = m_end (anno a) - m_start (anno a);
             bspan = m_start (anno b);
             b' = b\<lparr>anno := (anno b)\<lparr>m_end := m_start (anno b)\<rparr>\<rparr>
         in if bspan < aspan then (1, b')
            else if aspan < bspan then (- 1, b')
            else (0, b')))"

text \<open>
  The comparison the sort makes on two keys of \<open>cmp_to_key(compare_scores)\<close>:
  \<open>x < y\<close> is \<open>compare_scores(x, y) < 0\<close>.
\<close>

definition islt :: "scored \<Rightarrow> scored \<Rightarrow> bool \<times> scored" where
  "islt x y = (case compare_scores x y of (r, y') \<Rightarrow> (r < 0, y'))"

text \<open>
  \<open>list.sort\<close> as CPython (3.7 to 3.12) runs it on a list shorter than 64 elements: the
  whole list is one run, found by \<open>count_run\<close> and completed by binary insertion. Each
  comparison may rewrite its right operand, which is written back to its slot. With two
  elements the sort is a single comparison of the second with the first, in every version.
\<close>

function run_desc :: "scored list \<Rightarrow> nat \<Rightarrow> scored list \<times> nat" where
  "run_desc xs i =
     (if i < length xs then
        (case islt (xs ! i) (xs ! (i - 1)) of
           (lt, y') \<Rightarrow> if lt then run_desc (xs[i - 1 := y']) (Suc i) else (xs[i - 1 := y'], i))
      else (xs, i))"
  by pat_completeness auto
termination
  by (relation "measure (\<lambda>(xs, i). length xs - i)") auto

function run_asc :: "scored list \<Rightarrow> nat \<Rightarrow> scored list \<times> nat" where
  "run_asc xs i =
     (if i < length xs then
        (case islt (xs ! i) (xs ! (i - 1)) of
           (lt, y') \<Rightarrow> if lt then (xs[i - 1 := y'], i) else run_asc (xs[i - 1 := y']) (Suc i))
      else (xs, i))"
  by pat_completeness auto
termination
  by (relation "measure (\<lambda>(xs, i). length xs - i)") auto

text \<open>\<open>count_run\<close> on at least two elements: the list, the run length, whether it descends.\<close>

definition count_run :: "scored list \<Rightarrow> scored list \<times> nat \<times> bool" where
  "count_run xs =
     (case islt (xs ! 1) (xs ! 0) of
        (lt, y') \<Rightarrow>
          if lt then (case run_desc (xs[0 := y']) 2 of (xs', n) \<Rightarrow> (xs', n, True))
          else (case run_asc (xs[0 := y']) 2 of (xs', n) \<Rightarrow> (xs', n, False)))"

text \<open>The binary search of \<open>binarysort\<close> for the slot of \<open>pivot\<close> in \<open>[l, r)\<close>.\<close>

function bsearch :: "scored \<Rightarrow> scored list \<Rightarrow> nat \<Rightarrow> nat \<Rightarrow> scored list \<times> nat" where
  "bsearch pivot xs l r =
     (let p = l + (r - l) div 2 in
      case islt pivot (xs ! p) of
        (lt, y') \<Rightarrow>
          if lt then (if l < p then bsearch pivot (xs[p := y']) l p else (xs[p := y'], l))
          else (if p + 1 < r then bsearch pivot (xs[p := y']) (p + 1) r else (xs[p := y'], p + 1)))"
  by pat_completeness auto
termination
  by (relation "measure (\<lambda>(pivot, xs, l, r). r - l)") auto

definition binsort_step :: "scored list \<Rightarrow> nat \<Rightarrow> scored list" where
  "binsort_step xs k =
     (let pivot = xs ! k in
      case bsearch pivot xs 0 k of
        (xs', l) \<Rightarrow> take l xs' @ [pivot] @ take (k - l) (drop l xs') @ drop (Suc k) xs')"

definition list_sort :: "scored list \<Rightarrow> scored list" where
  "list_sort xs =
     (if length xs < 2 then xs
      else
        (case count_run xs of
           (xs1, n, desc) \<Rightarrow>
             (let xs2 = (if desc then rev (take n xs1) @ drop n xs1 else xs1)
              in foldl binsort_step xs2 [n ..< length xs2])))"

text \<open>
  \<open>scores.sort(reverse=True, key=score_sorter)\<close>: the list is reversed, sorted and
  reversed again.
\<close>

definition sort_reverse :: "scored list \<Rightarrow> scored list" where
  "sort_reverse xs = rev (list_sort (rev xs))"

subsection \<open>TRFAnno\<close>

text \<open>Python slices \<open>s[:k]\<close> and \<open>s[k:]\<close>; a negative bound counts from the end.\<close>

definition slice_to :: "'a list \<Rightarrow> int \<Rightarrow> 'a list" where
  "slice_to s k = (if k < 0 then take (nat (int (length s) + k)) s else take (nat k) s)"

definition slice_from :: "'a list \<Rightarrow> int \<Rightarrow> 'a list" where
  "slice_from s k = (if k < 0 then drop (nat (int (length s) + k)) s else drop (nat k) s)"

text \<open>
  \<open>make_seq(entry, svtype)\<close>: the haplotype of the variant inside the region's reference
  sequence.
\<close>

definition make_seq :: "region \<Rightarrow> string \<Rightarrow> entry \<Rightarrow> string \<Rightarrow> py_error + string" where
  "make_seq reg reference e svtype =
     (let rs = start e - r_start reg;
          re = stop e - r_start reg;
          up_seq = slice_to reference rs;
          dn_seq = slice_from reference re
      in if svtype = ''INS'' then
           (case alts e of
              None \<Rightarrow> Inl TypeError
            | Some [] \<Rightarrow> Inl IndexError
            | Some (alt # _) \<Rightarrow> Inr (up_seq @ alt @ dn_seq))
         else if svtype = ''DEL'' then Inr (up_seq @ dn_seq)
         else Inl (SystemExit 1))"

text \<open>
  \<open>run_trf(seq)\<close>. The external repeat finder is \<open>trf_exec\<close>: for a haplotype, its return
  code and the rows of its output for the one sequence written, as \<open>parse_trf_output\<close>
  splits them. \<open>parse_trf_output\<close> makes the start 0-based; \<open>run_trf\<close> shifts both
  coordinates by the region start. The temporary files and the error log lines are left
  out.
\<close>

definition run_trf :: "(string \<Rightarrow> int \<times> motif list) \<Rightarrow> region \<Rightarrow> string \<Rightarrow> motif list" where
  "run_trf trf_exec reg seq =
     (case trf_exec seq of
        (ret_code, rows) \<Rightarrow>
          if ret_code \<noteq> 0 then []
          else map (\<lambda>a. a\<lparr>m_start := m_start a - 1 + r_start reg, m_end := m_end a + r_start reg\<rparr>) rows)"

text \<open>
  \<open>self.known_motifs\<close>, a dict built from the region's motifs: for a repeated motif the
  last copy number stays.
\<close>

definition known_motifs :: "region \<Rightarrow> string \<rightharpoonup> rat" where
  "known_motifs reg = map_of (rev (map (\<lambda>a. (repeat a, copies a)) (annos reg)))"

text \<open>
  \<open>score_annotation\<close>. \<open>overlap_percent\<close> is \<open>truvari.overlap_percent\<close>, defined outside
  these files and taken as a parameter.
\<close>

definition score_annotation ::
  "(int \<Rightarrow> int \<Rightarrow> int \<Rightarrow> int \<Rightarrow> rat) \<Rightarrow> region \<Rightarrow> int \<Rightarrow> int \<Rightarrow> motif \<Rightarrow> scored option" where
  "score_annotation overlap_percent reg var_start var_end a =
     (let ovl = overlap_percent var_start var_end (m_start a) (m_end a) in
      if ovl \<le> 0 then None
      else Some \<lparr>anno = a, ovl_pct = ovl,
                 diff = (case known_motifs reg (repeat a) of
                           Some k \<Rightarrow> copies a - k
                         | None \<Rightarrow> 0)\<rparr>)"

text \<open>
  The loop of \<open>del_annotator\<close> over the region's motifs. Dividing by a zero period raises
  \<open>ZeroDivisionError\<close>.
\<close>

fun del_scores ::
  "(int \<Rightarrow> int \<Rightarrow> int \<Rightarrow> int \<Rightarrow> rat) \<Rightarrow> int \<Rightarrow> int \<Rightarrow> int \<Rightarrow> motif list \<Rightarrow> scored list
     \<Rightarrow> py_error + scored list" where
  "del_scores overlap_percent var_start var_end svlen [] scores = Inr scores"
| "del_scores overlap_percent var_start var_end svlen (a # as) scores =
     (let ovl = overlap_percent var_start var_end (m_start a) (m_end a) in
      if ovl = 0 then del_scores overlap_percent var_start var_end svlen as scores
      else if period a = 0 then Inl ZeroDivisionError
      else del_scores overlap_percent var_start var_end svlen as
             (scores @ [\<lparr>anno = a, ovl_pct = ovl,
                          diff = - (ovl * of_int svlen) / of_int (period a)\<rparr>]))"

text \<open>What both annotators return: the first of the sorted scores, or \<open>None\<close>.\<close>

definition top_score :: "scored list \<Rightarrow> scored option" where
  "top_score scores = (case sort_reverse scores of [] \<Rightarrow> None | s # _ \<Rightarrow> Some s)"

definition del_annotator ::
  "(int \<Rightarrow> int \<Rightarrow> int \<Rightarrow> int \<Rightarrow> rat) \<Rightarrow> region \<Rightarrow> entry \<Rightarrow> int \<Rightarrow> py_error + scored option" where
  "del_annotator overlap_percent reg e svlen =
     (case del_scores overlap_percent (start e) (stop e) svlen (annos reg) [] of
        Inl err \<Rightarrow> Inl err
      | Inr scores \<Rightarrow> Inr (top_score scores))"

definition ins_annotator ::
  "(int \<Rightarrow> int \<Rightarrow> int \<Rightarrow> int \<Rightarrow> rat) \<Rightarrow> (string \<Rightarrow> int \<times> motif list) \<Rightarrow> region \<Rightarrow> string
     \<Rightarrow> entry \<Rightarrow> py_error + scored option" where
  "ins_annotator overlap_percent trf_exec reg reference e =
     (case make_seq reg reference e ''INS'' of
        Inl err \<Rightarrow> Inl err
      | Inr seq \<Rightarrow>
          Inr (top_score
                 (List.map_filter (score_annotation overlap_percent reg (start e) (stop e))
                    (run_trf trf_exec reg seq))))"

text \<open>
  \<open>annotate(entry, min_length)\<close>. \<open>entry_variant_type\<close> and \<open>entry_size\<close> are truvari's,
  parameters. The record is returned as the call leaves it, or the exception raised.
\<close>

definition annotate ::
  "(entry \<Rightarrow> string) \<Rightarrow> (entry \<Rightarrow> int) \<Rightarrow> (int \<Rightarrow> int \<Rightarrow> int \<Rightarrow> int \<Rightarrow> rat)
     \<Rightarrow> (string \<Rightarrow> int \<times> motif list) \<Rightarrow> region \<Rightarrow> string \<Rightarrow> entry \<Rightarrow> int
     \<Rightarrow> py_error + entry" where
  "annotate entry_variant_type entry_size overlap_percent trf_exec reg reference e min_length =
     (let svtype = entry_variant_type e;
          sz = entry_size e;
          e1 = e\<lparr>info := (info e)(''TRF'' \<mapsto> PBool True)\<rparr>
      in if sz < min_length then Inr e1
         else
           (case (if svtype = ''DEL'' then del_annotator overlap_percent reg e1 sz
                  else if svtype = ''INS'' then ins_annotator overlap_percent trf_exec reg reference e1
                  else Inr None) of
              Inl err \<Rightarrow> Inl err
            | Inr None \<Rightarrow> Inr e1
            | Inr (Some r) \<Rightarrow>
                Inr (e1\<lparr>info := (info e1)
                       (''TRFovl'' \<mapsto> PFloat (py_round (ovl_pct r) 3),
                        ''TRFdiff'' \<mapsto> PFloat (py_round (diff r) 1),
                        ''TRFperiod'' \<mapsto> PInt (period (anno r)),
                        ''TRFcopies'' \<mapsto> PFloat (copies (anno r)),
                        ''TRFscore'' \<mapsto> PInt (m_score (anno r)),
                        ''TRFentropy'' \<mapsto> PFloat (entropy (anno r)),
                        ''TRFrepeat'' \<mapsto> PStr (repeat (anno r)))\<rparr>)))"

text \<open>
  Modelled from the spec: \<open>truvari.overlap_percent\<close>, defined outside these files. The
  spec calls it the reciprocal overlap of the two intervals, the shared length over the
  longer span, and zero when they share nothing.
\<close>

definition reciprocal_overlap :: "int \<Rightarrow> int \<Rightarrow> int \<Rightarrow> int \<Rightarrow> rat" where
  "reciprocal_overlap astart aend bstart bend =
     (let ovl = max 0 (min aend bend - max astart bstart);
          span = max (aend - astart) (bend - bstart)
      in if span \<le> 0 then 0 else of_int ovl / of_int span)"

section \<open>Notions used in the statements\<close>

text \<open>The two counter identities of the stats box.\<close>

definition counts_ok :: "StatsBox \<Rightarrow> bool" where
  "counts_ok box =
     (TP_base box + FN box = base_cnt box \<and> TP_comp box + FP box = comp_cnt box)"

text \<open>
  The comp side of a result is written as a false positive: it is present, the state is
  false and the size of the annotated record reaches \<open>sizemin\<close>.
\<close>

definition comp_counted :: "(entry \<Rightarrow> int) \<Rightarrow> MatchResult \<Rightarrow> int \<Rightarrow> bool" where
  "comp_counted entry_size m sizemin =
     (case comp m of
        None \<Rightarrow> False
      | Some c \<Rightarrow> \<not> state m \<and> sizemin \<le> entry_size (annotate_entry c m))"

text \<open>
  Modelled from the spec: \<open>truvari.entry_size\<close>, defined outside these files, for
  records that carry their alleles as sequence: the absolute difference of the allele
  lengths. It is used for concrete inputs only.
\<close>

definition allele_size :: "entry \<Rightarrow> int" where
  "allele_size e =
     (case alts e of
        Some (alt # _) \<Rightarrow> \<bar>int (length alt) - int (length (ref e))\<bar>
      | _ \<Rightarrow> 0)"

text \<open>The insertion \<open>chr1 100 G GA\<close> of size 1, and the result that holds it as comp only.\<close>

definition small_ins :: entry where
  "small_ins =
     \<lparr>chrom = ''chr1'', start = 100, stop = 101, ref = ''G'', alts = Some [''GA''],
      info = Map.empty\<rparr>"

definition small_fp :: MatchResult where
  "small_fp = MatchResult_init\<lparr>comp := Some small_ins, matid := Some ''0._.0''\<rparr>"

text \<open>
  The namespace of \<open>bench -b /data/base.vcf.gz -c /data/comp.vcf.gz -o /data/out -s 10\<close>,
  the other options at the defaults the help text gives.
\<close>

definition bench_cmd :: "string list" where
  "bench_cmd =
     [''-b'', ''/data/base.vcf.gz'', ''-c'', ''/data/comp.vcf.gz'', ''-o'', ''/data/out'',
      ''-s'', ''10'']"

definition bench_ns :: args where
  "bench_ns =
     \<lparr>a_base = ''/data/base.vcf.gz'', a_comp = ''/data/comp.vcf.gz'', a_output = ''/data/out'',
      a_reference = None, a_debug = False, a_prog = False, a_refdist = 500, a_pctseq = 7 / 10,
      a_minhaplen = 50, a_pctsize = 7 / 10, a_pctovl = 0, a_typeignore = False,
      a_dup_to_ins = False, a_use_lev = False, a_chunksize = 1000, a_gtcomp = False,
      a_bSample = None, a_cSample = None, a_sizemin = 10, a_sizefilt = None,
      a_sizemax = 50000, a_passonly = False, a_no_ref = None, a_includebed = None,
      a_extend = 0, a_multimatch = False\<rparr>"

text \<open>
  A world in which every file of that command line exists, the output directory does
  not, the comparison VCF has one sample column and the baseline VCF has none.
\<close>

definition sites_only_world :: world where
  "sites_only_world =
     \<lparr>isdir = (\<lambda>_. False), path_exists = (\<lambda>_. True),
      header_samples = (\<lambda>fn. if fn = ''/data/base.vcf.gz'' then [] else [''HG002''])\<rparr>"

text \<open>
  A region with two motifs that cover the same half of a deletion at 1000 to 1100 and have
  the same score: \<open>GATA\<close> spans 100 bases, \<open>AT\<close> spans 50.
\<close>

definition motif_GATA :: motif where
  "motif_GATA =
     \<lparr>m_start = 950, m_end = 1050, period = 4, copies = 25, consize = 4, pctmat = 100,
      pctindel = 0, m_score = 400, entropy = 2, repeat = ''GATA''\<rparr>"

definition motif_AT :: motif where
  "motif_AT =
     \<lparr>m_start = 1000, m_end = 1050, period = 2, copies = 25, consize = 2, pctmat = 100,
      pctindel = 0, m_score = 400, entropy = 1, repeat = ''AT''\<rparr>"

definition two_motif_region :: region where
  "two_motif_region =
     \<lparr>r_chrom = ''chr1'', r_start = 900, r_end = 1200, annos = [motif_GATA, motif_AT]\<rparr>"

definition del_1000_1100 :: entry where
  "del_1000_1100 =
     \<lparr>chrom = ''chr1'', start = 1000, stop = 1100, ref = replicate 101 CHR ''A'',
      alts = Some [''A''], info = Map.empty\<rparr>"

text \<open>A scorer that records the pair and the id it is given and measures nothing.\<close>

definition bare_match :: "entry \<Rightarrow> entry \<Rightarrow> string \<Rightarrow> MatchResult" where
  "bare_match b c s = MatchResult_init\<lparr>base := Some b, comp := Some c, matid := Some s\<rparr>"

text \<open>A cell of the matrix of \<open>bs\<close> and \<open>cs\<close>: a result holding one of each.\<close>

definition cell_of :: "entry list \<Rightarrow> entry list \<Rightarrow> MatchResult \<Rightarrow> bool" where
  "cell_of bs cs m = (\<exists>b \<in> set bs. \<exists>c \<in> set cs. base m = Some b \<and> comp m = Some c)"

text \<open>
  The invariant of the single-best loop: the used keys are keys of the chunk's variants,
  and each remaining count is the number of variants less the number of used keys.
\<close>

definition single_inv ::
  "(entry \<Rightarrow> string) \<Rightarrow> entry list \<Rightarrow> entry list \<Rightarrow> single_state \<Rightarrow> bool" where
  "single_inv entry_str bs cs st =
     (s_used_base st \<subseteq> entry_str ` set bs \<and>
      int (card (s_used_base st)) + s_base_cnt st = int (length bs) \<and>
      s_used_comp st \<subseteq> entry_str ` set cs \<and>
      int (card (s_used_comp st)) + s_comp_cnt st = int (length cs))"

text \<open>The keys of the base sides, and of the comp sides, that a list of results carries.\<close>

definition base_keys :: "(entry \<Rightarrow> string) \<Rightarrow> MatchResult list \<Rightarrow> string set" where
  "base_keys entry_str rs = (\<Union>r \<in> set rs. entry_str ` set_option (base r))"

definition comp_keys :: "(entry \<Rightarrow> string) \<Rightarrow> MatchResult list \<Rightarrow> string set" where
  "comp_keys entry_str rs = (\<Union>r \<in> set rs. entry_str ` set_option (comp r))"

text \<open>
  The invariant of the genotype-aware loop: no counter is negative, a counter is nonzero
  exactly for the keys the emitted records carry, and every emitted record has a side.
\<close>

definition gt_inv :: "(entry \<Rightarrow> string) \<Rightarrow> gt_state \<Rightarrow> bool" where
  "gt_inv entry_str st =
     ((\<forall>k. 0 \<le> g_used_base st k) \<and> (\<forall>k. 0 \<le> g_used_comp st k) \<and>
      (\<forall>k. g_used_base st k \<noteq> 0 \<longleftrightarrow> k \<in> base_keys entry_str (g_ret st)) \<and>
      (\<forall>k. g_used_comp st k \<noteq> 0 \<longleftrightarrow> k \<in> comp_keys entry_str (g_ret st)) \<and>
      (\<forall>r \<in> set (g_ret st). base r \<noteq> None \<or> comp r \<noteq> None))"

subsection \<open>Concrete inputs for the pickers\<close>

text \<open>
  Modelled from the spec: \<open>MatchResult.__lt__\<close>, defined outside these files. A true
  state ranks above a false one; then the higher score ranks higher, no score being the
  lowest; then the smaller absolute start distance; then the smaller absolute size
  difference. A distance that was not measured is read as 0.
\<close>

definition match_lt :: "MatchResult \<Rightarrow> MatchResult \<Rightarrow> bool" where
  "match_lt x y =
     (if state x \<noteq> state y then state y
      else if score x \<noteq> score y then
        (case (score x, score y) of
           (None, Some _) \<Rightarrow> True
         | (Some a, Some b) \<Rightarrow> a < b
         | _ \<Rightarrow> False)
      else if \<bar>case st_dist x of None \<Rightarrow> 0 | Some d \<Rightarrow> d\<bar> \<noteq> \<bar>case st_dist y of None \<Rightarrow> 0 | Some d \<Rightarrow> d\<bar>
        then \<bar>case st_dist y of None \<Rightarrow> 0 | Some d \<Rightarrow> d\<bar> < \<bar>case st_dist x of None \<Rightarrow> 0 | Some d \<Rightarrow> d\<bar>
      else \<bar>case sizediff y of None \<Rightarrow> 0 | Some d \<Rightarrow> d\<bar> < \<bar>case sizediff x of None \<Rightarrow> 0 | Some d \<Rightarrow> d\<bar>)"

text \<open>A stable insertion sort, standing for numpy's sort on concrete inputs.\<close>

fun insert_by :: "('a \<Rightarrow> 'a \<Rightarrow> bool) \<Rightarrow> 'a \<Rightarrow> 'a list \<Rightarrow> 'a list" where
  "insert_by lt x [] = [x]"
| "insert_by lt x (y # ys) = (if lt x y then x # y # ys else y # insert_by lt x ys)"

definition sort_by :: "('a \<Rightarrow> 'a \<Rightarrow> bool) \<Rightarrow> 'a list \<Rightarrow> 'a list" where
  "sort_by lt xs = foldl (\<lambda>acc x. insert_by lt x acc) [] xs"

text \<open>
  A rendering of a variant record, standing for pysam's on concrete inputs: chromosome,
  start, reference allele and first alternate allele.
\<close>

definition vcf_text :: "entry \<Rightarrow> string" where
  "vcf_text e =
     chrom e @ '':'' @ str_int (start e) @ '':'' @ ref e @ '':'' @
     (case alts e of Some (alt # _) \<Rightarrow> alt | _ \<Rightarrow> ''.'')"

text \<open>
  One baseline insertion at 100 and two comparison insertions of the same sequence at
  100 and at 101, with the two results of the pair scorer: both pass, the second is one
  base away.
\<close>

definition ins_base :: entry where
  "ins_base =
     \<lparr>chrom = ''chr1'', start = 100, stop = 101, ref = ''G'', alts = Some [''GAAAA''],
      info = Map.empty\<rparr>"

definition ins_100 :: entry where
  "ins_100 =
     \<lparr>chrom = ''chr1'', start = 100, stop = 101, ref = ''G'', alts = Some [''GAAAA''],
      info = Map.empty\<rparr>"

definition ins_101 :: entry where
  "ins_101 =
     \<lparr>chrom = ''chr1'', start = 101, stop = 102, ref = ''G'', alts = Some [''GAAAA''],
      info = Map.empty\<rparr>"

text \<open>The base is homozygous, each comp heterozygous.\<close>

definition hom_100 :: MatchResult where
  "hom_100 =
     \<lparr>base = Some ins_base, comp = Some ins_100, base_gt = Some [Some 1, Some 1],
      base_gt_count = 2, comp_gt = Some [Some 0, Some 1], comp_gt_count = 1, state = True,
      seqsim = Some 1, sizesim = Some 1, ovlpct = Some 1, sizediff = Some 0,
      st_dist = Some 0, ed_dist = Some 0, gt_match = Some 1, multi = False,
      score = Some 300, matid = Some ''0.0.0''\<rparr>"

definition hom_101 :: MatchResult where
  "hom_101 =
     \<lparr>base = Some ins_base, comp = Some ins_101, base_gt = Some [Some 1, Some 1],
      base_gt_count = 2, comp_gt = Some [Some 0, Some 1], comp_gt_count = 1, state = True,
      seqsim = Some 1, sizesim = Some 1, ovlpct = Some 1, sizediff = Some 0,
      st_dist = Some 1, ed_dist = Some 1, gt_match = Some 1, multi = False,
      score = Some 300, matid = Some ''0.0.1''\<rparr>"

definition hom_matrix :: "MatchResult list list" where
  "hom_matrix = [[hom_100, hom_101]]"

text \<open>The same pairs with a heterozygous base.\<close>

definition het_100 :: MatchResult where
  "het_100 =
     hom_100\<lparr>base_gt := Some [Some 0, Some 1], base_gt_count := 1, gt_match := Some 0\<rparr>"

definition het_101 :: MatchResult where
  "het_101 =
     hom_101\<lparr>base_gt := Some [Some 0, Some 1], base_gt_count := 1, gt_match := Some 0\<rparr>"

definition het_matrix :: "MatchResult list list" where
  "het_matrix = [[het_100, het_101]]"

text \<open>Two heterozygous baseline insertions against the one comparison insertion at 100.\<close>

definition ins_base_101 :: entry where
  "ins_base_101 =
     \<lparr>chrom = ''chr1'', start = 101, stop = 102, ref = ''G'', alts = Some [''GAAAA''],
      info = Map.empty\<rparr>"

definition het_b101 :: MatchResult where
  "het_b101 = het_101\<lparr>base := Some ins_base_101, comp := Some ins_100, matid := Some ''0.1.0''\<rparr>"

definition two_base_matrix :: "MatchResult list list" where
  "two_base_matrix = [[het_100], [het_b101]]"

section \<open>Properties of annotate_entry and write_match\<close>

lemma write_base_box:
  "base_cnt (stats_box (write_base out m)) =
      base_cnt (stats_box out) + (if base m = None then 0 else 1)
   \<and> TP_base (stats_box (write_base out m)) =
      TP_base (stats_box out) + (if base m \<noteq> None \<and> state m then 1 else 0)
   \<and> FN (stats_box (write_base out m)) =
      FN (stats_box out) + (if base m \<noteq> None \<and> \<not> state m then 1 else 0)
   \<and> comp_cnt (stats_box (write_base out m)) = comp_cnt (stats_box out)
   \<and> TP_comp (stats_box (write_base out m)) = TP_comp (stats_box out)
   \<and> FP (stats_box (write_base out m)) = FP (stats_box out)
   \<and> fp_out (write_base out m) = fp_out out"
  by (simp add: write_base_def Let_def split: option.splits)

lemma write_comp_box:
  "comp_cnt (stats_box (write_comp entry_size out m sizemin)) =
      comp_cnt (stats_box out) +
        (if comp m \<noteq> None \<and> state m then 1 else 0) +
        (if comp_counted entry_size m sizemin then 1 else 0)
   \<and> TP_comp (stats_box (write_comp entry_size out m sizemin)) =
      TP_comp (stats_box out) + (if comp m \<noteq> None \<and> state m then 1 else 0)
   \<and> FP (stats_box (write_comp entry_size out m sizemin)) =
      FP (stats_box out) + (if comp_counted entry_size m sizemin then 1 else 0)
   \<and> base_cnt (stats_box (write_comp entry_size out m sizemin)) = base_cnt (stats_box out)
   \<and> TP_base (stats_box (write_comp entry_size out m sizemin)) = TP_base (stats_box out)
   \<and> FN (stats_box (write_comp entry_size out m sizemin)) = FN (stats_box out)
   \<and> fp_out (write_comp entry_size out m sizemin) =
      fp_out out @
        (case comp m of
           None \<Rightarrow> []
         | Some c \<Rightarrow>
             if \<not> state m \<and> sizemin \<le> entry_size (annotate_entry c m)
             then [annotate_entry c m] else [])"
  by (simp add: write_comp_def comp_counted_def Let_def split: option.splits)

lemma write_match_box:
  "base_cnt (stats_box (write_match entry_size out m sizemin)) =
      base_cnt (stats_box out) + (if base m = None then 0 else 1)
   \<and> TP_base (stats_box (write_match entry_size out m sizemin)) =
      TP_base (stats_box out) + (if base m \<noteq> None \<and> state m then 1 else 0)
   \<and> FN (stats_box (write_match entry_size out m sizemin)) =
      FN (stats_box out) + (if base m \<noteq> None \<and> \<not> state m then 1 else 0)
   \<and> comp_cnt (stats_box (write_match entry_size out m sizemin)) =
      comp_cnt (stats_box out) +
        (if comp m \<noteq> None \<and> state m then 1 else 0) +
        (if comp_counted entry_size m sizemin then 1 else 0)
   \<and> TP_comp (stats_box (write_match entry_size out m sizemin)) =
      TP_comp (stats_box out) + (if comp m \<noteq> None \<and> state m then 1 else 0)
   \<and> FP (stats_box (write_match entry_size out m sizemin)) =
      FP (stats_box out) + (if comp_counted entry_size m sizemin then 1 else 0)"
  unfolding write_match_def
  using write_base_box [of out m] write_comp_box [of entry_size "write_base out m" m sizemin]
  by simp

lemma write_match_counts_ok:
  "counts_ok (stats_box out) \<Longrightarrow> counts_ok (stats_box (write_match entry_size out m sizemin))"
  unfolding counts_ok_def using write_match_box [of entry_size out m sizemin]
  by (simp split: if_splits)

lemma foldl_run_step_counts_ok:
  "counts_ok (stats_box out) \<Longrightarrow>
   counts_ok (stats_box (foldl (run_step entry_size include extend_bp sizemin) out ms))"
  by (induction ms arbitrary: out) (simp_all add: run_step_def Let_def write_match_counts_ok)

text \<open>
  C1. For every run of bench, after every call to \<open>write_match\<close> the counters satisfy
  \<open>TP-base + FN = base cnt\<close> and \<open>TP-comp + FP = comp cnt\<close>: after any number \<open>k\<close> of
  the results of a run have been written, both identities hold. In one call, \<open>base cnt\<close>
  grows by one exactly when the base side is present, and then exactly one of \<open>TP-base\<close>
  (true state) and \<open>FN\<close> (false state) grows by one; \<open>comp cnt\<close> grows by one exactly in
  the branch that adds one to \<open>TP-comp\<close> and in the branch that adds one to \<open>FP\<close>.
\<close>

theorem write_match_counts_invariant:
  "counts_ok (stats_box (run_matches entry_size include extend_bp sizemin (take k ms)))
   \<and> base_cnt (stats_box (write_match entry_size out m sizemin)) =
      base_cnt (stats_box out) + (if base m = None then 0 else 1)
   \<and> TP_base (stats_box (write_match entry_size out m sizemin)) =
      TP_base (stats_box out) + (if base m \<noteq> None \<and> state m then 1 else 0)
   \<and> FN (stats_box (write_match entry_size out m sizemin)) =
      FN (stats_box out) + (if base m \<noteq> None \<and> \<not> state m then 1 else 0)
   \<and> comp_cnt (stats_box (write_match entry_size out m sizemin)) =
      comp_cnt (stats_box out) +
        (if comp m \<noteq> None \<and> state m then 1 else 0) +
        (if comp_counted entry_size m sizemin then 1 else 0)
   \<and> TP_comp (stats_box (write_match entry_size out m sizemin)) =
      TP_comp (stats_box out) + (if comp m \<noteq> None \<and> state m then 1 else 0)
   \<and> FP (stats_box (write_match entry_size out m sizemin)) =
      FP (stats_box out) + (if comp_counted entry_size m sizemin then 1 else 0)"
proof -
  have "counts_ok (stats_box BenchOutput_init)"
    by (simp add: counts_ok_def BenchOutput_init_def StatsBox_init_def)
  then have "counts_ok (stats_box (run_matches entry_size include extend_bp sizemin (take k ms)))"
    unfolding run_matches_def by (rule foldl_run_step_counts_ok)
  with write_match_box [of entry_size out m sizemin] show ?thesis by blast
qed

text \<open>
  C6. For every MatchResult passed to \<open>write_match\<close> whose comp side is present, whose
  state is false and whose comp variant size is below \<open>sizemin\<close>, the \<open>FP\<close> counter and
  the \<open>comp cnt\<close> counter are left unchanged and the comp record is not written to the fp
  output file. The size is the one the code reads, that of the record once annotated.
\<close>

theorem write_match_small_comp:
  assumes "comp m = Some c" and "\<not> state m" and "entry_size (annotate_entry c m) < sizemin"
  shows "FP (stats_box (write_match entry_size out m sizemin)) = FP (stats_box out)
       \<and> comp_cnt (stats_box (write_match entry_size out m sizemin)) = comp_cnt (stats_box out)
       \<and> fp_out (write_match entry_size out m sizemin) = fp_out out"
  unfolding write_match_def
  using assms write_base_box [of out m] write_comp_box [of entry_size "write_base out m" m sizemin]
  by (simp add: comp_counted_def)

theorem write_match_small_comp_witness:
  "comp small_fp = Some small_ins \<and> \<not> state small_fp
   \<and> allele_size (annotate_entry small_ins small_fp) < 50
   \<and> FP (stats_box (write_match allele_size BenchOutput_init small_fp 50)) = 0
   \<and> comp_cnt (stats_box (write_match allele_size BenchOutput_init small_fp 50)) = 0
   \<and> fp_out (write_match allele_size BenchOutput_init small_fp 50) = []"
proof -
  have h1: "comp small_fp = Some small_ins" and h2: "\<not> state small_fp"
    by (simp_all add: small_fp_def MatchResult_init_def)
  have h3: "allele_size (annotate_entry small_ins small_fp) < 50"
    by (simp add: allele_size_def annotate_entry_def small_ins_def Let_def)
  from write_match_small_comp
         [where m = small_fp and c = small_ins and entry_size = allele_size
            and sizemin = 50 and out = BenchOutput_init, OF h1 h2 h3] h1 h2 h3
  show ?thesis by (simp add: BenchOutput_init_def StatsBox_init_def)
qed



text \<open>
  C8. For every MatchResult written by \<open>annotate_entry\<close>, the TruScore INFO field is set
  to \<open>None\<close> whenever \<open>match.score\<close> is \<open>None\<close> or equals 0: a composite score of
  exactly 0 yields no TruScore value rather than the integer 0.
\<close>

theorem annotate_entry_TruScore_falsy:
  "score m = None \<or> score m = Some 0 \<Longrightarrow>
     info (annotate_entry e m) ''TruScore'' = Some PNone"
  by (auto simp add: annotate_entry_def Let_def)

theorem annotate_entry_TruScore_falsy_witness:
  "info (annotate_entry
      \<lparr>chrom = ''chr1'', start = 100, stop = 101, ref = ''G'', alts = Some [''GAAAA''],
       info = Map.empty\<rparr>
      \<lparr>base = None, comp = None, base_gt = None, base_gt_count = 0, comp_gt = None,
       comp_gt_count = 0, state = True, seqsim = Some 0, sizesim = Some 0, ovlpct = Some 0,
       sizediff = Some 0, st_dist = Some 0, ed_dist = Some 0, gt_match = Some 0,
       multi = False, score = Some 0, matid = Some ''0.0.0''\<rparr>) ''TruScore'' = Some PNone"
  by (rule annotate_entry_TruScore_falsy) simp

section \<open>Properties of parse_args and the start-up checks\<close>

text \<open>
  C10. For every command line where \<open>--sizefilt\<close> is omitted (the namespace holds
  \<open>None\<close>), \<open>parse_args\<close> sets \<open>sizefilt\<close> to \<open>sizemin\<close> when \<open>sizemin\<close> is smaller than
  the default \<open>sizefilt\<close>, and to the default otherwise; when \<open>-S\<close> is given, the provided
  value is kept unchanged.
\<close>

theorem parse_args_sizefilt:
  assumes "parser cmdargs = Inr ns"
  shows "\<exists>a. parse_args parser defaults_sizefilt abspath cmdargs = Inr a \<and>
           a_sizemin a = a_sizemin ns \<and>
           a_sizefilt a =
             (case a_sizefilt ns of
                None \<Rightarrow> Some (if a_sizemin ns < defaults_sizefilt then a_sizemin ns
                               else defaults_sizefilt)
              | Some v \<Rightarrow> Some v)"
  using assms by (simp add: parse_args_def Let_def split: option.splits)

theorem parse_args_sizefilt_witness:
  "\<exists>a. parse_args (\<lambda>_. Inr bench_ns) 30 (\<lambda>p. p) bench_cmd = Inr a \<and>
        a_sizemin a = 10 \<and> a_sizefilt a = Some 10"
  using parse_args_sizefilt
          [where parser = "\<lambda>_. Inr bench_ns" and cmdargs = bench_cmd and ns = bench_ns
             and defaults_sizefilt = 30 and abspath = "\<lambda>p. p"]
  by (simp add: bench_ns_def)

lemma check_collects:
  "check cond msg st = (fst st @ (if cond then [msg] else []), snd st \<or> cond)"
  by (cases st) (simp add: check_def)

text \<open>
  Every check of \<open>check_params\<close> is evaluated: the flag is the disjunction of the eleven
  conditions, and one message is logged for each condition that holds.
\<close>

lemma check_params_collects:
  "snd (check_params w a) =
     (a_chunksize a < a_refdist a
      \<or> (a_extend a \<noteq> 0 \<and> a_includebed a = None)
      \<or> isdir w (a_output a)
      \<or> \<not> path_exists w (a_comp a)
      \<or> \<not> path_exists w (a_base a)
      \<or> \<not> endswith (a_comp a) ''.gz''
      \<or> \<not> path_exists w (a_comp a @ ''.tbi'')
      \<or> \<not> endswith (a_base a) ''.gz''
      \<or> \<not> path_exists w (a_base a @ ''.tbi'')
      \<or> (\<exists>bed. a_includebed a = Some bed \<and> bed \<noteq> [] \<and> \<not> path_exists w bed)
      \<or> (\<exists>fa. a_reference a = Some fa \<and> fa \<noteq> [] \<and> \<not> path_exists w fa))
   \<and> length (fst (check_params w a)) =
     (if a_chunksize a < a_refdist a then 1 else 0)
     + (if a_extend a \<noteq> 0 \<and> a_includebed a = None then 1 else 0)
     + (if isdir w (a_output a) then 1 else 0)
     + (if \<not> path_exists w (a_comp a) then 1 else 0)
     + (if \<not> path_exists w (a_base a) then 1 else 0)
     + (if \<not> endswith (a_comp a) ''.gz'' then 1 else 0)
     + (if \<not> path_exists w (a_comp a @ ''.tbi'') then 1 else 0)
     + (if \<not> endswith (a_base a) ''.gz'' then 1 else 0)
     + (if \<not> path_exists w (a_base a @ ''.tbi'') then 1 else 0)
     + (if \<exists>bed. a_includebed a = Some bed \<and> bed \<noteq> [] \<and> \<not> path_exists w bed then 1 else 0)
     + (if \<exists>fa. a_reference a = Some fa \<and> fa \<noteq> [] \<and> \<not> path_exists w fa then 1 else 0)"
  by (cases "a_includebed a"; cases "a_reference a")
     (simp_all add: check_params_def Let_def check_collects)

text \<open>
  C7. The claim: \<open>check_params\<close> evaluates every check without short-circuiting, and
  \<open>bench_main\<close> exits with code 100 whenever any parameter or input validation check
  fails. The first half is \<open>check_params_collects\<close>. The second half fails for a baseline
  VCF without sample columns when \<open>--bSample\<close> is not given: \<open>check_sample\<close> logs the
  failed check and sets its flag, then reads \<open>header.samples[0]\<close>, and \<open>bench_main\<close> ends
  with an uncaught \<open>IndexError\<close> instead of exit code 100.
\<close>

theorem bench_main_sites_only_base:
  "bench_main (\<lambda>_. Inr bench_ns) 30 (\<lambda>p. p) sites_only_world (\<lambda>_. ()) bench_cmd =
     ([''No SAMPLE columns found in vcf (/data/base.vcf.gz)''], Inl IndexError)"
  by (simp add: bench_main_def parse_args_def check_params_def check_inputs_def
        check_sample_def check_def bench_ns_def sites_only_world_def Let_def
        truthy_str_def endswith_def)

section \<open>Properties of build_matrix\<close>

lemma build_fps_length: "length (build_fps cid n cs acc) = length acc + length cs"
  by (induction cs arbitrary: n acc) simp_all

lemma build_fps_nth_old: "i < length acc \<Longrightarrow> build_fps cid n cs acc ! i = acc ! i"
  by (induction cs arbitrary: n acc) (simp_all add: nth_append)

lemma build_fps_nth:
  "i < length cs \<Longrightarrow>
   build_fps cid n cs acc ! (length acc + i) =
     MatchResult_init\<lparr>comp := Some (cs ! i),
                       matid := Some (str_int cid @ ''._.'' @ str_nat (n + i))\<rparr>"
proof (induction cs arbitrary: n acc i)
  case Nil
  then show ?case by simp
next
  case (Cons c cs)
  show ?case
  proof (cases i)
    case 0
    then show ?thesis by (simp add: build_fps_nth_old)
  next
    case (Suc j)
    with Cons.prems have j: "j < length cs" by simp
    let ?acc = "acc @ [MatchResult_init\<lparr>comp := Some c,
                         matid := Some (str_int cid @ ''._.'' @ str_nat n)\<rparr>]"
    from Cons.IH [OF j, of "Suc n" ?acc] Suc show ?thesis by simp
  qed
qed

lemma build_fns_length: "length (build_fns cid n bs acc) = length acc + length bs"
  by (induction bs arbitrary: n acc) simp_all

lemma build_fns_nth_old: "i < length acc \<Longrightarrow> build_fns cid n bs acc ! i = acc ! i"
  by (induction bs arbitrary: n acc) (simp_all add: nth_append)

lemma build_fns_nth:
  "i < length bs \<Longrightarrow>
   build_fns cid n bs acc ! (length acc + i) =
     MatchResult_init\<lparr>base := Some (bs ! i),
                       matid := Some (str_int cid @ ''.'' @ str_nat (n + i) @ ''._'')\<rparr>"
proof (induction bs arbitrary: n acc i)
  case Nil
  then show ?case by simp
next
  case (Cons b bs)
  show ?case
  proof (cases i)
    case 0
    then show ?thesis by (simp add: build_fns_nth_old)
  next
    case (Suc j)
    with Cons.prems have j: "j < length bs" by simp
    let ?acc = "acc @ [MatchResult_init\<lparr>base := Some b,
                         matid := Some (str_int cid @ ''.'' @ str_nat n @ ''._'')\<rparr>]"
    from Cons.IH [OF j, of "Suc n" ?acc] Suc show ?thesis by simp
  qed
qed

lemma build_row_length: "length (build_row bm cid bi b n cs acc) = length acc + length cs"
  by (induction cs arbitrary: n acc) simp_all

lemma build_row_nth_old: "i < length acc \<Longrightarrow> build_row bm cid bi b n cs acc ! i = acc ! i"
  by (induction cs arbitrary: n acc) (simp_all add: nth_append)

lemma build_row_nth:
  "i < length cs \<Longrightarrow>
   build_row bm cid bi b n cs acc ! (length acc + i) =
     bm b (cs ! i) (str_int cid @ ''.'' @ str_nat bi @ ''.'' @ str_nat (n + i))"
proof (induction cs arbitrary: n acc i)
  case Nil
  then show ?case by simp
next
  case (Cons c cs)
  show ?case
  proof (cases i)
    case 0
    then show ?thesis by (simp add: build_row_nth_old)
  next
    case (Suc j)
    with Cons.prems have j: "j < length cs" by simp
    let ?acc = "acc @ [bm b c (str_int cid @ ''.'' @ str_nat bi @ ''.'' @ str_nat n)]"
    from Cons.IH [OF j, of "Suc n" ?acc] Suc show ?thesis by simp
  qed
qed

lemma build_rows_length: "length (build_rows bm cid n bs cs acc) = length acc + length bs"
  by (induction bs arbitrary: n acc) simp_all

lemma build_rows_nth_old: "i < length acc \<Longrightarrow> build_rows bm cid n bs cs acc ! i = acc ! i"
  by (induction bs arbitrary: n acc) (simp_all add: nth_append)

lemma build_rows_nth:
  "i < length bs \<Longrightarrow>
   build_rows bm cid n bs cs acc ! (length acc + i) =
     build_row bm cid (n + i) (bs ! i) 0 cs []"
proof (induction bs arbitrary: n acc i)
  case Nil
  then show ?case by simp
next
  case (Cons b bs)
  show ?case
  proof (cases i)
    case 0
    then show ?thesis by (simp add: build_rows_nth_old)
  next
    case (Suc j)
    with Cons.prems have j: "j < length bs" by simp
    let ?acc = "acc @ [build_row bm cid n b 0 cs []]"
    from Cons.IH [OF j, of "Suc n" ?acc] Suc show ?thesis by simp
  qed
qed

text \<open>
  C4. For every chunk with \<open>B\<close> base and \<open>C\<close> comp variants, \<open>build_matrix\<close> returns: if
  \<open>B = 0\<close>, a flat list of \<open>C\<close> MatchResults each with only the comp side set, matid
  \<open>{id}._.{ci}\<close> and a false state; if \<open>C = 0\<close>, a flat list of \<open>B\<close> MatchResults each with
  only the base side set and matid \<open>{id}.{bi}._\<close>; otherwise a \<open>B\<close> by \<open>C\<close> rectangular
  array whose cell \<open>(bi, ci)\<close> is the MatchResult the scorer builds for that pair of
  variants with matid \<open>{id}.{bi}.{ci}\<close>, which is the cell's matid when the scorer
  stores the id it is given.
\<close>

theorem build_matrix_layout:
  "(length bs = 0 \<longrightarrow>
      (\<exists>fps. build_matrix bs cs build_match chunk_id = Flat fps \<and> length fps = length cs \<and>
         (\<forall>ci < length cs.
            base (fps ! ci) = None \<and> comp (fps ! ci) = Some (cs ! ci) \<and>
            matid (fps ! ci) = Some (str_int chunk_id @ ''._.'' @ str_nat ci) \<and>
            \<not> state (fps ! ci))))
   \<and> (length cs = 0 \<longrightarrow>
      (\<exists>fns. build_matrix bs cs build_match chunk_id = Flat fns \<and> length fns = length bs \<and>
         (\<forall>bi < length bs.
            base (fns ! bi) = Some (bs ! bi) \<and> comp (fns ! bi) = None \<and>
            matid (fns ! bi) = Some (str_int chunk_id @ ''.'' @ str_nat bi @ ''._'') \<and>
            \<not> state (fns ! bi))))
   \<and> (length bs \<noteq> 0 \<and> length cs \<noteq> 0 \<longrightarrow>
      (\<exists>mat. build_matrix bs cs build_match chunk_id = Matrix mat \<and> length mat = length bs \<and>
         (\<forall>bi < length bs. length (mat ! bi) = length cs \<and>
            (\<forall>ci < length cs.
               mat ! bi ! ci =
                 build_match (bs ! bi) (cs ! ci)
                   (str_int chunk_id @ ''.'' @ str_nat bi @ ''.'' @ str_nat ci) \<and>
               ((\<forall>b c s. matid (build_match b c s) = Some s) \<longrightarrow>
                  matid (mat ! bi ! ci) =
                    Some (str_int chunk_id @ ''.'' @ str_nat bi @ ''.'' @ str_nat ci))))))"
proof (intro conjI impI)
  assume "length bs = 0"
  then show "\<exists>fps. build_matrix bs cs build_match chunk_id = Flat fps \<and>
      length fps = length cs \<and>
      (\<forall>ci < length cs.
         base (fps ! ci) = None \<and> comp (fps ! ci) = Some (cs ! ci) \<and>
         matid (fps ! ci) = Some (str_int chunk_id @ ''._.'' @ str_nat ci) \<and>
         \<not> state (fps ! ci))"
    using build_fps_nth [of _ cs chunk_id 0 "[]"]
    by (simp add: build_matrix_def build_fps_length MatchResult_init_def)
next
  assume c0: "length cs = 0"
  show "\<exists>fns. build_matrix bs cs build_match chunk_id = Flat fns \<and>
      length fns = length bs \<and>
      (\<forall>bi < length bs.
         base (fns ! bi) = Some (bs ! bi) \<and> comp (fns ! bi) = None \<and>
         matid (fns ! bi) = Some (str_int chunk_id @ ''.'' @ str_nat bi @ ''._'') \<and>
         \<not> state (fns ! bi))"
  proof (cases "length bs = 0")
    case True
    with c0 show ?thesis by (simp add: build_matrix_def)
  next
    case False
    with c0 show ?thesis
      using build_fns_nth [of _ bs chunk_id 0 "[]"]
      by (simp add: build_matrix_def build_fns_length MatchResult_init_def)
  qed
next
  assume "length bs \<noteq> 0 \<and> length cs \<noteq> 0"
  then show "\<exists>mat. build_matrix bs cs build_match chunk_id = Matrix mat \<and>
      length mat = length bs \<and>
      (\<forall>bi < length bs. length (mat ! bi) = length cs \<and>
         (\<forall>ci < length cs.
            mat ! bi ! ci =
              build_match (bs ! bi) (cs ! ci)
                (str_int chunk_id @ ''.'' @ str_nat bi @ ''.'' @ str_nat ci) \<and>
            ((\<forall>b c s. matid (build_match b c s) = Some s) \<longrightarrow>
               matid (mat ! bi ! ci) =
                 Some (str_int chunk_id @ ''.'' @ str_nat bi @ ''.'' @ str_nat ci))))"
    using build_rows_nth [of _ bs build_match chunk_id 0 cs "[]"]
          build_row_nth [of _ cs build_match chunk_id _ _ 0 "[]"]
    by (simp add: build_matrix_def build_rows_length build_row_length)
qed

theorem build_matrix_layout_witness:
  "(\<exists>fps. build_matrix [] [small_ins] bare_match 7 = Flat fps \<and> length fps = 1 \<and>
      base (fps ! 0) = None \<and> comp (fps ! 0) = Some small_ins \<and>
      matid (fps ! 0) = Some ''7._.0'' \<and> \<not> state (fps ! 0))
   \<and> (\<exists>fns. build_matrix [small_ins] [] bare_match 7 = Flat fns \<and> length fns = 1 \<and>
      base (fns ! 0) = Some small_ins \<and> comp (fns ! 0) = None \<and>
      matid (fns ! 0) = Some ''7.0._'' \<and> \<not> state (fns ! 0))
   \<and> (\<exists>mat. build_matrix [small_ins] [small_ins] bare_match 7 = Matrix mat \<and>
      length mat = 1 \<and> length (mat ! 0) = 1 \<and>
      mat ! 0 ! 0 = bare_match small_ins small_ins ''7.0.0'' \<and>
      matid (mat ! 0 ! 0) = Some ''7.0.0'')"
  using build_matrix_layout [of "[]" "[small_ins]" bare_match 7]
        build_matrix_layout [of "[small_ins]" "[]" bare_match 7]
        build_matrix_layout [of "[small_ins]" "[small_ins]" bare_match 7]
  by (simp add: str_int_def str_nat.simps digit_char_def bare_match_def)

section \<open>Properties of the repeat annotator\<close>

text \<open>
  C9. For every entry \<open>annotate\<close> is called on, the TRF flag is set to \<open>True\<close> before the
  minimum-length check: whenever the call returns, the record carries \<open>TRF = True\<close>, and
  for a variant whose size is below \<open>min_length\<close> the call returns the record with that
  one field set and every other INFO field, the seven other \<open>TRF*\<close> fields among them,
  as it was.
\<close>

theorem annotate_sets_TRF_first:
  "(\<forall>e'. annotate entry_variant_type entry_size overlap_percent trf_exec reg reference e
            min_length = Inr e' \<longrightarrow> info e' ''TRF'' = Some (PBool True))
   \<and> (entry_size e < min_length \<longrightarrow>
        (\<exists>e'. annotate entry_variant_type entry_size overlap_percent trf_exec reg reference e
                 min_length = Inr e' \<and>
              e' = e\<lparr>info := (info e)(''TRF'' \<mapsto> PBool True)\<rparr> \<and>
              info e' ''TRF'' = Some (PBool True) \<and>
              (\<forall>k \<in> {''TRFovl'', ''TRFdiff'', ''TRFperiod'', ''TRFcopies'', ''TRFscore'',
                       ''TRFentropy'', ''TRFrepeat''}. info e' k = info e k)))"
  by (auto simp add: annotate_def Let_def split: if_splits sum.splits option.splits)

theorem annotate_sets_TRF_first_witness:
  "allele_size small_ins < 50 \<and>
   (\<exists>e'. annotate (\<lambda>_. ''INS'') allele_size reciprocal_overlap (\<lambda>_. (0, []))
            two_motif_region (replicate 300 CHR ''A'') small_ins 50 = Inr e' \<and>
         info e' ''TRF'' = Some (PBool True) \<and> info e' ''TRFovl'' = None \<and>
         info e' ''TRFdiff'' = None \<and> info e' ''TRFperiod'' = None \<and>
         info e' ''TRFcopies'' = None \<and> info e' ''TRFscore'' = None \<and>
         info e' ''TRFentropy'' = None \<and> info e' ''TRFrepeat'' = None)"
proof -
  have small: "allele_size small_ins < 50"
    by (simp add: allele_size_def small_ins_def)
  from annotate_sets_TRF_first
         [where entry_size = allele_size and e = small_ins and min_length = 50
            and entry_variant_type = "\<lambda>_. ''INS''" and overlap_percent = reciprocal_overlap
            and trf_exec = "\<lambda>_. (0, [])" and reg = two_motif_region
            and reference = "replicate 300 CHR ''A''"] small
  show ?thesis by (auto simp add: small_ins_def)
qed

text \<open>
  Whatever \<open>overlap_percent\<close> computes, when it gives the two motifs of
  \<open>two_motif_region\<close> the same nonzero overlap with the deletion at 1000 to 1100,
  \<open>del_annotator\<close> returns the shorter motif \<open>AT\<close>, its end overwritten.
\<close>

lemma del_annotator_tie:
  assumes "overlap_percent 1000 1100 950 1050 = ovl"
      and "overlap_percent 1000 1100 1000 1050 = ovl" and "ovl \<noteq> 0"
  shows "del_annotator overlap_percent two_motif_region del_1000_1100 100 =
           Inr (Some \<lparr>anno = motif_AT\<lparr>m_end := 1000\<rparr>, ovl_pct = ovl,
                       diff = - (ovl * 100) / 2\<rparr>)"
  using assms
  by (simp add: del_annotator_def Let_def top_score_def sort_reverse_def list_sort_def
        count_run_def islt_def compare_scores_def two_motif_region_def motif_GATA_def
        motif_AT_def del_1000_1100_def)

text \<open>
  C3. The claim: among the motifs with nonzero overlap, \<open>del_annotator\<close> ranks by
  \<open>ovl_pct\<close>, then score, then motif span (\<open>end - start\<close>), each descending, and returns
  the top one. For the deletion at 1000 to 1100 the two motifs of \<open>two_motif_region\<close> tie
  on \<open>ovl_pct\<close> (1/2) and score (400), and \<open>GATA\<close> has the longer span; the code returns
  \<open>AT\<close>, and with its \<open>end\<close> overwritten by its \<open>start\<close>. \<open>compare_scores\<close> compares the
  span of its first argument with the start of its second, which it also stores as the
  second's end.
\<close>

theorem del_annotator_span_tie:
  "del_scores reciprocal_overlap 1000 1100 100 [motif_GATA, motif_AT] [] =
     Inr [\<lparr>anno = motif_GATA, ovl_pct = 1 / 2, diff = - (25 / 2)\<rparr>,
          \<lparr>anno = motif_AT, ovl_pct = 1 / 2, diff = - 25\<rparr>]
   \<and> compare_scores \<lparr>anno = motif_GATA, ovl_pct = 1 / 2, diff = - (25 / 2)\<rparr>
                    \<lparr>anno = motif_AT, ovl_pct = 1 / 2, diff = - 25\<rparr> =
     (- 1, \<lparr>anno = motif_AT\<lparr>m_end := 1000\<rparr>, ovl_pct = 1 / 2, diff = - 25\<rparr>)
   \<and> del_annotator reciprocal_overlap two_motif_region del_1000_1100 100 =
     Inr (Some \<lparr>anno = motif_AT\<lparr>m_end := 1000\<rparr>, ovl_pct = 1 / 2, diff = - 25\<rparr>)"
  by (simp add: del_annotator_def reciprocal_overlap_def Let_def top_score_def
        sort_reverse_def list_sort_def count_run_def islt_def compare_scores_def
        two_motif_region_def motif_GATA_def motif_AT_def del_1000_1100_def)

section \<open>Properties of pick_single_matches\<close>

lemma matrix_of_cells:
  assumes "matrix_of bs cs mat" and "m \<in> set (concat mat)"
  shows "cell_of bs cs m"
proof -
  from assms(2) obtain row where row: "row \<in> set mat" and m: "m \<in> set row" by auto
  from row obtain i where i: "i < length mat" and r: "mat ! i = row"
    by (auto simp: in_set_conv_nth)
  from assms(1) have all: "list_all2 (\<lambda>b row. length row = length cs \<and>
      list_all2 (\<lambda>c m. base m = Some b \<and> comp m = Some c) cs row) bs mat"
    by (simp add: matrix_of_def)
  from all have len: "length bs = length mat" by (rule list_all2_lengthD)
  with i have bi: "i < length bs" by simp
  from list_all2_nthD [OF all bi] r
  have rowp: "list_all2 (\<lambda>c m. base m = Some (bs ! i) \<and> comp m = Some c) cs row" by simp
  from rowp have lenr: "length cs = length row" by (rule list_all2_lengthD)
  from m obtain j where j: "j < length row" and mj: "row ! j = m"
    by (auto simp: in_set_conv_nth)
  from j lenr have cj: "j < length cs" by simp
  from list_all2_nthD [OF rowp cj] mj
  have bm: "base m = Some (bs ! i)" and cm: "comp m = Some (cs ! j)" by simp_all
  from bi have "bs ! i \<in> set bs" by simp
  moreover from cj have "cs ! j \<in> set cs" by simp
  ultimately show ?thesis unfolding cell_of_def using bm cm by blast
qed

lemma matrix_of_shape:
  assumes "matrix_of bs cs mat"
  shows "shape mat = (int (length bs), int (length cs))"
proof -
  from assms have l: "length mat = length bs" and ne: "bs \<noteq> []"
    and all: "list_all2 (\<lambda>b row. length row = length cs \<and>
      list_all2 (\<lambda>c m. base m = Some b \<and> comp m = Some c) cs row) bs mat"
    by (simp_all add: matrix_of_def)
  from l ne obtain r rs where mat: "mat = r # rs" by (cases mat) auto
  from ne obtain b bs' where bs: "bs = b # bs'" by (cases bs) auto
  from all mat bs have "length r = length cs" by simp
  with mat l show ?thesis by (simp add: shape_def)
qed

lemma used_all:
  assumes "U \<subseteq> f ` set xs" and "int (card U) + n = int (length xs)" and "n = 0"
  shows "U = f ` set xs"
proof -
  have "card (f ` set xs) \<le> card (set xs)" by (rule card_image_le) simp
  also have "\<dots> \<le> length xs" by (rule card_length)
  finally have "card (f ` set xs) \<le> length xs" .
  with assms(2,3) have "card (f ` set xs) \<le> card U" by simp
  with assms(1) show ?thesis by (simp add: card_seteq)
qed

lemma single_inv_init:
  assumes "matrix_of bs cs mat"
  shows "single_inv entry_str bs cs (single_init mat)"
  using matrix_of_shape [OF assms] by (simp add: single_inv_def single_init_def)

lemma single_body_described:
  assumes inv: "single_inv entry_str bs cs st" and cell: "cell_of bs cs m"
  shows "single_body entry_str st m = single_step_described entry_str st m"
proof -
  from cell obtain b c where b: "b \<in> set bs" "base m = Some b" and c: "c \<in> set cs" "comp m = Some c"
    unfolding cell_of_def by blast
  have bk: "side_key entry_str (base m) \<in> s_used_base st" if "s_base_cnt st = 0"
  proof -
    from inv that have "s_used_base st = entry_str ` set bs"
      by (intro used_all [where n = "s_base_cnt st"]) (simp_all add: single_inv_def)
    with b show ?thesis by (simp add: side_key_def)
  qed
  have ck: "side_key entry_str (comp m) \<in> s_used_comp st" if "s_comp_cnt st = 0"
  proof -
    from inv that have "s_used_comp st = entry_str ` set cs"
      by (intro used_all [where n = "s_comp_cnt st"]) (simp_all add: single_inv_def)
    with c show ?thesis by (simp add: side_key_def)
  qed
  show ?thesis
  proof (cases "side_key entry_str (base m) \<in> s_used_base st")
    case True
    then show ?thesis using ck by (simp add: single_body_def single_step_described_def Let_def)
  next
    case bu: False
    show ?thesis
    proof (cases "side_key entry_str (comp m) \<in> s_used_comp st")
      case True
      then show ?thesis using bu bk by (simp add: single_body_def single_step_described_def Let_def)
    next
      case False
      with bu bk ck have "s_base_cnt st \<noteq> 0" "s_comp_cnt st \<noteq> 0" by blast+
      with bu False show ?thesis by (simp add: single_body_def single_step_described_def Let_def)
    qed
  qed
qed

lemma card_insert_new: "finite A \<Longrightarrow> x \<notin> A \<Longrightarrow> int (card (insert x A)) = int (card A) + 1"
  by simp

lemma single_body_inv:
  assumes inv: "single_inv entry_str bs cs st" and cell: "cell_of bs cs m"
  shows "single_inv entry_str bs cs (single_body entry_str st m)"
proof -
  from cell obtain b c where b: "b \<in> set bs" "base m = Some b" and c: "c \<in> set cs" "comp m = Some c"
    unfolding cell_of_def by blast
  have kb: "side_key entry_str (base m) \<in> entry_str ` set bs"
    and kc: "side_key entry_str (comp m) \<in> entry_str ` set cs"
    using b c by (simp_all add: side_key_def)
  have fb: "finite (s_used_base st)" and fc: "finite (s_used_comp st)"
    using inv by (auto simp: single_inv_def intro: finite_subset)
  have nb: "int (card (insert (side_key entry_str (base m)) (s_used_base st))) =
              int (card (s_used_base st)) + 1"
    if "side_key entry_str (base m) \<notin> s_used_base st"
    using fb that by (rule card_insert_new)
  have nc: "int (card (insert (side_key entry_str (comp m)) (s_used_comp st))) =
              int (card (s_used_comp st)) + 1"
    if "side_key entry_str (comp m) \<notin> s_used_comp st"
    using fc that by (rule card_insert_new)
  show ?thesis
    using inv kb kc nb nc
    by (simp add: single_body_def single_inv_def Let_def)
qed

lemma single_loop_described:
  assumes "single_inv entry_str bs cs st" and "\<forall>m \<in> set ms. cell_of bs cs m"
  shows "single_loop entry_str st ms = single_walk_described entry_str st ms"
  using assms
proof (induction ms arbitrary: st)
  case Nil
  then show ?case by simp
next
  case (Cons m ms)
  from Cons.prems have cell: "cell_of bs cs m" and rest: "\<forall>x \<in> set ms. cell_of bs cs x"
    by simp_all
  from Cons.prems(1) cell have step: "single_body entry_str st m = single_step_described entry_str st m"
    by (rule single_body_described)
  from Cons.prems(1) cell have "single_inv entry_str bs cs (single_body entry_str st m)"
    by (rule single_body_inv)
  from Cons.IH [OF this rest] step show ?case by simp
qed

lemma single_inv_used:
  assumes inv: "single_inv entry_str bs cs st" and cell: "cell_of bs cs m"
  shows "s_base_cnt st = 0 \<Longrightarrow> side_key entry_str (base m) \<in> s_used_base st"
    and "s_comp_cnt st = 0 \<Longrightarrow> side_key entry_str (comp m) \<in> s_used_comp st"
proof -
  from cell obtain b c where b: "b \<in> set bs" "base m = Some b" and c: "c \<in> set cs" "comp m = Some c"
    unfolding cell_of_def by blast
  show "side_key entry_str (base m) \<in> s_used_base st" if "s_base_cnt st = 0"
  proof -
    from inv that have "s_used_base st = entry_str ` set bs"
      by (intro used_all [where n = "s_base_cnt st"]) (simp_all add: single_inv_def)
    with b show ?thesis by (simp add: side_key_def)
  qed
  show "side_key entry_str (comp m) \<in> s_used_comp st" if "s_comp_cnt st = 0"
  proof -
    from inv that have "s_used_comp st = entry_str ` set cs"
      by (intro used_all [where n = "s_comp_cnt st"]) (simp_all add: single_inv_def)
    with c show ?thesis by (simp add: side_key_def)
  qed
qed

lemma single_loop_inv:
  assumes "single_inv entry_str bs cs st" and "\<forall>m \<in> set ms. cell_of bs cs m"
  shows "single_inv entry_str bs cs (single_loop entry_str st ms)"
  using assms
proof (induction ms arbitrary: st)
  case Nil
  then show ?case by simp
next
  case (Cons m ms)
  from Cons.prems have cell: "cell_of bs cs m" and rest: "\<forall>x \<in> set ms. cell_of bs cs x"
    by simp_all
  from Cons.prems(1) cell have "single_inv entry_str bs cs (single_body entry_str st m)"
    by (rule single_body_inv)
  from Cons.IH [OF this rest] Cons.prems(1) show ?case by simp
qed

lemma single_loop_stopped:
  "s_base_cnt st = 0 \<and> s_comp_cnt st = 0 \<Longrightarrow> single_loop entry_str st ms = st"
  by (cases ms) simp_all

lemma single_loop_append:
  "single_loop entry_str st (xs @ ys) = single_loop entry_str (single_loop entry_str st xs) ys"
  by (induction xs arbitrary: st) (simp_all add: single_loop_stopped)

lemma single_body_clauses:
  assumes inv: "single_inv entry_str bs cs s" and cell: "cell_of bs cs m"
  shows "(side_key entry_str (base m) \<notin> s_used_base s \<and> side_key entry_str (comp m) \<notin> s_used_comp s \<longrightarrow>
            s_ret (single_body entry_str s m) = s_ret s @ [m] \<and>
            s_used_base (single_body entry_str s m) = insert (side_key entry_str (base m)) (s_used_base s) \<and>
            s_used_comp (single_body entry_str s m) = insert (side_key entry_str (comp m)) (s_used_comp s))
       \<and> (s_comp_cnt s = 0 \<and> side_key entry_str (base m) \<notin> s_used_base s \<longrightarrow>
            s_ret (single_body entry_str s m) =
              s_ret s @ [m\<lparr>comp := None, state := False, multi := True\<rparr>] \<and>
            s_used_base (single_body entry_str s m) = insert (side_key entry_str (base m)) (s_used_base s) \<and>
            s_used_comp (single_body entry_str s m) = s_used_comp s)
       \<and> (s_base_cnt s = 0 \<and> side_key entry_str (comp m) \<notin> s_used_comp s \<longrightarrow>
            s_ret (single_body entry_str s m) =
              s_ret s @ [m\<lparr>base := None, state := False, multi := True\<rparr>] \<and>
            s_used_comp (single_body entry_str s m) = insert (side_key entry_str (comp m)) (s_used_comp s) \<and>
            s_used_base (single_body entry_str s m) = s_used_base s)"
  using single_inv_used [OF inv cell]
  by (auto simp add: single_body_def Let_def)


text \<open>
  C2. For every non-empty base by comp match matrix, \<open>pick_single_matches\<close> walks the
  flattened matrix in descending order of the MatchResult order, keying used sides by the
  string of the variant. At every result \<open>m\<close> of the walk (\<open>s\<close> is the state after the
  results \<open>pre\<close> before it, \<open>s'\<close> the state after \<open>m\<close>): when both remaining counts are
  zero the walk stops and the output is what was emitted so far; otherwise, when both
  sides are unused it emits the result unchanged and marks both used; when the remaining
  comp count (resp. base count) is zero and this result's base (resp. comp) is unused, it
  emits a copy with the other side set to null, \<open>state = false\<close>, \<open>multi = true\<close>, and
  marks that side used. The whole output is that of \<open>single_walk_described\<close>, which tests
  "both unused" first where the code tests the two consolation cases first. The sort is
  numpy's: it is assumed to return its input rearranged into ascending order.
\<close>

theorem pick_single_matches_walk:
  assumes mat: "matrix_of bs cs mat"
      and perm: "mset (np_sort (concat mat)) = mset (concat mat)"
      and asc: "ascending lt (np_sort (concat mat))"
  shows "mset (walk_order np_sort mat) = mset (concat mat)
       \<and> descending lt (walk_order np_sort mat)
       \<and> pick_single_matches np_sort entry_str mat =
           s_ret (single_walk_described entry_str (single_init mat) (walk_order np_sort mat))
       \<and> (\<forall>pre m post. walk_order np_sort mat = pre @ m # post \<longrightarrow>
            (let s = single_loop entry_str (single_init mat) pre;
                 s' = single_body entry_str s m;
                 bk = side_key entry_str (base m);
                 ck = side_key entry_str (comp m)
             in (s_base_cnt s = 0 \<and> s_comp_cnt s = 0 \<longrightarrow>
                   pick_single_matches np_sort entry_str mat = s_ret s)
              \<and> (\<not> (s_base_cnt s = 0 \<and> s_comp_cnt s = 0) \<longrightarrow>
                   pick_single_matches np_sort entry_str mat =
                     s_ret (single_loop entry_str s' post)
                 \<and> (bk \<notin> s_used_base s \<and> ck \<notin> s_used_comp s \<longrightarrow>
                      s_ret s' = s_ret s @ [m] \<and>
                      s_used_base s' = insert bk (s_used_base s) \<and>
                      s_used_comp s' = insert ck (s_used_comp s))
                 \<and> (s_comp_cnt s = 0 \<and> bk \<notin> s_used_base s \<longrightarrow>
                      s_ret s' = s_ret s @ [m\<lparr>comp := None, state := False, multi := True\<rparr>] \<and>
                      s_used_base s' = insert bk (s_used_base s) \<and>
                      s_used_comp s' = s_used_comp s)
                 \<and> (s_base_cnt s = 0 \<and> ck \<notin> s_used_comp s \<longrightarrow>
                      s_ret s' = s_ret s @ [m\<lparr>base := None, state := False, multi := True\<rparr>] \<and>
                      s_used_comp s' = insert ck (s_used_comp s) \<and>
                      s_used_base s' = s_used_base s))))"
proof -
  from perm have "set (np_sort (concat mat)) = set (concat mat)" by (rule mset_eq_setD)
  with matrix_of_cells [OF mat] have cells: "\<forall>x \<in> set (walk_order np_sort mat). cell_of bs cs x"
    by (simp add: walk_order_def)
  from perm have P: "mset (walk_order np_sort mat) = mset (concat mat)"
    by (simp add: walk_order_def)
  from asc have Q: "descending lt (walk_order np_sort mat)"
    by (simp add: walk_order_def ascending_def descending_def sorted_wrt_rev)
  from single_loop_described [OF single_inv_init [OF mat] cells]
  have R: "pick_single_matches np_sort entry_str mat =
           s_ret (single_walk_described entry_str (single_init mat) (walk_order np_sort mat))"
    by (simp add: pick_single_matches_def)
  have S: "(let s = single_loop entry_str (single_init mat) pre;
                 s' = single_body entry_str s m;
                 bk = side_key entry_str (base m);
                 ck = side_key entry_str (comp m)
             in (s_base_cnt s = 0 \<and> s_comp_cnt s = 0 \<longrightarrow>
                   pick_single_matches np_sort entry_str mat = s_ret s)
              \<and> (\<not> (s_base_cnt s = 0 \<and> s_comp_cnt s = 0) \<longrightarrow>
                   pick_single_matches np_sort entry_str mat =
                     s_ret (single_loop entry_str s' post)
                 \<and> (bk \<notin> s_used_base s \<and> ck \<notin> s_used_comp s \<longrightarrow>
                      s_ret s' = s_ret s @ [m] \<and>
                      s_used_base s' = insert bk (s_used_base s) \<and>
                      s_used_comp s' = insert ck (s_used_comp s))
                 \<and> (s_comp_cnt s = 0 \<and> bk \<notin> s_used_base s \<longrightarrow>
                      s_ret s' = s_ret s @ [m\<lparr>comp := None, state := False, multi := True\<rparr>] \<and>
                      s_used_base s' = insert bk (s_used_base s) \<and>
                      s_used_comp s' = s_used_comp s)
                 \<and> (s_base_cnt s = 0 \<and> ck \<notin> s_used_comp s \<longrightarrow>
                      s_ret s' = s_ret s @ [m\<lparr>base := None, state := False, multi := True\<rparr>] \<and>
                      s_used_comp s' = insert ck (s_used_comp s) \<and>
                      s_used_base s' = s_used_base s)))"
    if walk: "walk_order np_sort mat = pre @ m # post" for pre m post
  proof -
    let ?s = "single_loop entry_str (single_init mat) pre"
    from cells walk have cell: "cell_of bs cs m" and cells_pre: "\<forall>x \<in> set pre. cell_of bs cs x"
      by simp_all
    have inv: "single_inv entry_str bs cs ?s"
      using single_inv_init [OF mat] cells_pre by (rule single_loop_inv)
    have split: "pick_single_matches np_sort entry_str mat = s_ret (single_loop entry_str ?s (m # post))"
      by (simp add: pick_single_matches_def walk single_loop_append)
    have stop: "pick_single_matches np_sort entry_str mat = s_ret ?s"
      if "s_base_cnt ?s = 0 \<and> s_comp_cnt ?s = 0"
      using that split by (simp add: single_loop_stopped)
    have go: "pick_single_matches np_sort entry_str mat =
                s_ret (single_loop entry_str (single_body entry_str ?s m) post)"
      if "\<not> (s_base_cnt ?s = 0 \<and> s_comp_cnt ?s = 0)"
      using that split by auto
    from stop go single_body_clauses [OF inv cell] show ?thesis
      unfolding Let_def by blast
  qed
  from P Q R S show ?thesis by blast
qed

theorem pick_single_matches_walk_witness:
  "matrix_of [ins_base] [ins_100, ins_101] hom_matrix
   \<and> mset (sort_by match_lt (concat hom_matrix)) = mset (concat hom_matrix)
   \<and> ascending match_lt (sort_by match_lt (concat hom_matrix))
   \<and> pick_single_matches (sort_by match_lt) vcf_text hom_matrix =
       [hom_100, hom_101\<lparr>base := None, state := False, multi := True\<rparr>]
   \<and> descending match_lt (walk_order (sort_by match_lt) hom_matrix)"
proof -
  have h1: "matrix_of [ins_base] [ins_100, ins_101] hom_matrix"
    by (simp add: matrix_of_def hom_matrix_def hom_100_def hom_101_def)
  have srt: "sort_by match_lt (concat hom_matrix) = [hom_101, hom_100]"
    by (simp add: sort_by_def match_lt_def hom_matrix_def hom_100_def hom_101_def)
  have h2: "mset (sort_by match_lt (concat hom_matrix)) = mset (concat hom_matrix)"
    unfolding srt by (simp add: hom_matrix_def)
  have h3: "ascending match_lt (sort_by match_lt (concat hom_matrix))"
    unfolding srt by (simp add: ascending_def match_lt_def hom_100_def hom_101_def)
  have walk: "walk_order (sort_by match_lt) hom_matrix = [hom_100, hom_101]"
    by (simp add: walk_order_def srt)
  have keys: "vcf_text ins_base \<noteq> vcf_text ins_base_101" "vcf_text ins_100 \<noteq> vcf_text ins_101"
    by (simp_all add: vcf_text_def ins_base_def ins_base_101_def ins_100_def ins_101_def
          str_int_def str_nat.simps digit_char_def)
  have sides: "base hom_100 = Some ins_base" "comp hom_100 = Some ins_100"
      "base hom_101 = Some ins_base" "comp hom_101 = Some ins_101"
    by (simp_all add: hom_100_def hom_101_def)
  have described:
    "s_ret (single_walk_described vcf_text (single_init hom_matrix) [hom_100, hom_101]) =
       [hom_100, hom_101\<lparr>base := None, state := False, multi := True\<rparr>]"
    using keys sides
    by (simp add: single_init_def shape_def hom_matrix_def single_step_described_def
          side_key_def Let_def)
  from pick_single_matches_walk
         [where np_sort = "sort_by match_lt" and lt = match_lt and entry_str = vcf_text,
          OF h1 h2 h3] h1 h2 h3 described
  show ?thesis by (simp add: walk)
qed

section \<open>Properties of pick_gtcomp_matches\<close>

lemma base_keys_simps:
  "base_keys f [] = {}"
  "base_keys f (xs @ ys) = base_keys f xs \<union> base_keys f ys"
  "base_keys f [r] = f ` set_option (base r)"
  by (auto simp: base_keys_def)

lemma comp_keys_simps:
  "comp_keys f [] = {}"
  "comp_keys f (xs @ ys) = comp_keys f xs \<union> comp_keys f ys"
  "comp_keys f [r] = f ` set_option (comp r)"
  by (auto simp: comp_keys_def)

lemma gt_inv_init: "gt_inv entry_str (gt_init mat)"
  by (simp add: gt_inv_def gt_init_def base_keys_simps comp_keys_simps)

lemma gt_only_comp_inv:
  assumes inv: "gt_inv entry_str st" and c: "comp m = Some c"
  shows "gt_inv entry_str (gt_only_comp entry_str st m)"
  using inv c
  by (auto simp: gt_inv_def gt_only_comp_def Let_def side_key_def base_keys_simps comp_keys_simps)

lemma gt_only_base_inv:
  assumes inv: "gt_inv entry_str st" and b: "base m = Some b"
  shows "gt_inv entry_str (gt_only_base entry_str st m)"
  using inv b
  by (auto simp: gt_inv_def gt_only_base_def Let_def side_key_def base_keys_simps comp_keys_simps)

lemma gt_paired_copy_sides:
  "base (gt_paired_copy entry_str st m) =
     (if g_used_base st (side_key entry_str (base m)) \<noteq> 0 then None else base m)"
  "comp (gt_paired_copy entry_str st m) =
     (if g_used_comp st (side_key entry_str (comp m)) \<noteq> 0 then None else comp m)"
  by (simp_all add: gt_paired_copy_def Let_def)

lemma gt_both_fields:
  "g_used_base (gt_both entry_str st m) =
     (g_used_base st)(side_key entry_str (base m) :=
        g_used_base st (side_key entry_str (base m)) + comp_gt_count m)"
  "g_used_comp (gt_both entry_str st m) =
     (g_used_comp st)(side_key entry_str (comp m) :=
        g_used_comp st (side_key entry_str (comp m)) + base_gt_count m)"
  "g_ret (gt_both entry_str st m) =
     (if base (gt_paired_copy entry_str st m) \<noteq> None \<or> comp (gt_paired_copy entry_str st m) \<noteq> None
      then g_ret st @ [gt_paired_copy entry_str st m] else g_ret st)"
  by (simp_all add: gt_both_def Let_def)

lemma gt_both_inv:
  assumes inv: "gt_inv entry_str st" and b: "base m = Some b" and c: "comp m = Some c"
      and bu: "\<not> gt_base_is_used entry_str st m" and cu: "\<not> gt_comp_is_used entry_str st m"
  shows "gt_inv entry_str (gt_both entry_str st m)"
proof -
  let ?bk = "side_key entry_str (base m)" and ?ck = "side_key entry_str (comp m)"
  from inv have nb: "0 \<le> g_used_base st ?bk" and nc: "0 \<le> g_used_comp st ?ck"
    by (simp_all add: gt_inv_def)
  from bu nb have pb: "0 < base_gt_count m" by (simp add: gt_base_is_used_def)
  from cu nc have pc: "0 < comp_gt_count m" by (simp add: gt_comp_is_used_def)
  have bk: "?bk = entry_str b" and ck: "?ck = entry_str c" using b c by (simp_all add: side_key_def)
  from nb pc bk have sb: "g_used_base st (entry_str b) + comp_gt_count m \<noteq> 0" by simp
  from nc pb ck have sc: "g_used_comp st (entry_str c) + base_gt_count m \<noteq> 0" by simp
  show ?thesis
    unfolding gt_inv_def gt_both_fields gt_paired_copy_sides
    using inv pb pc b c bk ck sb sc
    by (auto simp: gt_inv_def base_keys_simps comp_keys_simps gt_paired_copy_def Let_def)
qed

lemma gt_body_inv:
  assumes inv: "gt_inv entry_str st" and cell: "cell_of bs cs m"
  shows "gt_inv entry_str (gt_body entry_str st m)"
proof -
  from cell obtain b c where b: "base m = Some b" and c: "comp m = Some c"
    unfolding cell_of_def by blast
  show ?thesis
    using gt_only_comp_inv [OF inv c] gt_only_base_inv [OF inv b] gt_both_inv [OF inv b c] inv
    by (simp add: gt_body_def Let_def)
qed

lemma gt_loop_inv:
  assumes "gt_inv entry_str st" and "\<forall>m \<in> set ms. cell_of bs cs m"
  shows "gt_inv entry_str (gt_loop entry_str st ms)"
  using assms
proof (induction ms arbitrary: st)
  case Nil
  then show ?case by simp
next
  case (Cons m ms)
  from Cons.prems have cell: "cell_of bs cs m" and rest: "\<forall>x \<in> set ms. cell_of bs cs x"
    by simp_all
  from Cons.prems(1) cell have "gt_inv entry_str (gt_body entry_str st m)" by (rule gt_body_inv)
  from Cons.IH [OF this rest] Cons.prems(1) show ?case by simp
qed

lemma gt_loop_stopped:
  "g_base_cnt st = 0 \<and> g_comp_cnt st = 0 \<Longrightarrow> gt_loop entry_str st ms = st"
  by (cases ms) simp_all

lemma gt_loop_append:
  "gt_loop entry_str st (xs @ ys) = gt_loop entry_str (gt_loop entry_str st xs) ys"
  by (induction xs arbitrary: st) (simp_all add: gt_loop_stopped)

text \<open>
  Once no base remains, only the first branch can run: the remaining base count stays
  zero, and a comp is appended only while its counter is zero. So a comp whose counter
  is not zero is carried by no later record. The same holds with the sides exchanged.
\<close>

lemma gt_body_base_done:
  assumes bc: "g_base_cnt st = 0" and cc: "g_comp_cnt st \<noteq> 0"
      and nz: "g_used_comp st k \<noteq> 0"
  shows "g_base_cnt (gt_body entry_str st m) = 0 \<and>
         g_used_comp (gt_body entry_str st m) k \<noteq> 0 \<and>
         (\<exists>new. g_ret (gt_body entry_str st m) = g_ret st @ new \<and>
                k \<notin> comp_keys entry_str new)"
proof (cases "gt_comp_is_used entry_str st m")
  case True
  with bc cc have "gt_body entry_str st m = st" by (simp add: gt_body_def Let_def)
  with bc nz show ?thesis by (simp add: comp_keys_simps)
next
  case False
  with bc have body: "gt_body entry_str st m = gt_only_comp entry_str st m"
    by (simp add: gt_body_def Let_def)
  show ?thesis
  proof (cases "side_key entry_str (comp m) = k")
    case True
    with bc nz show ?thesis
      unfolding body by (simp add: gt_only_comp_def Let_def comp_keys_simps)
  next
    case False
    then have "k \<notin> entry_str ` set_option (comp m)" by (auto simp: side_key_def)
    with False bc nz show ?thesis
      unfolding body by (simp add: gt_only_comp_def Let_def comp_keys_simps)
  qed
qed

lemma gt_body_comp_done:
  assumes cc: "g_comp_cnt st = 0" and bc: "g_base_cnt st \<noteq> 0"
      and nz: "g_used_base st k \<noteq> 0"
  shows "g_comp_cnt (gt_body entry_str st m) = 0 \<and>
         g_used_base (gt_body entry_str st m) k \<noteq> 0 \<and>
         (\<exists>new. g_ret (gt_body entry_str st m) = g_ret st @ new \<and>
                k \<notin> base_keys entry_str new)"
proof (cases "gt_base_is_used entry_str st m")
  case True
  with bc cc have "gt_body entry_str st m = st" by (simp add: gt_body_def Let_def)
  with cc nz show ?thesis by (simp add: base_keys_simps)
next
  case False
  with bc cc have body: "gt_body entry_str st m = gt_only_base entry_str st m"
    by (simp add: gt_body_def Let_def)
  show ?thesis
  proof (cases "side_key entry_str (base m) = k")
    case True
    with cc nz show ?thesis
      unfolding body by (simp add: gt_only_base_def Let_def base_keys_simps)
  next
    case False
    then have "k \<notin> entry_str ` set_option (base m)" by (auto simp: side_key_def)
    with False cc nz show ?thesis
      unfolding body by (simp add: gt_only_base_def Let_def base_keys_simps)
  qed
qed

lemma gt_loop_base_done:
  assumes "g_base_cnt st = 0" and "g_used_comp st k \<noteq> 0"
  shows "\<exists>later. g_ret (gt_loop entry_str st ms) = g_ret st @ later \<and>
           k \<notin> comp_keys entry_str later"
  using assms
proof (induction ms arbitrary: st)
  case Nil
  then show ?case by (simp add: comp_keys_simps)
next
  case (Cons m ms)
  show ?case
  proof (cases "g_comp_cnt st = 0")
    case True
    with Cons.prems(1) show ?thesis by (simp add: comp_keys_simps)
  next
    case False
    from gt_body_base_done [OF Cons.prems(1) False Cons.prems(2), of entry_str m]
    obtain new where bc': "g_base_cnt (gt_body entry_str st m) = 0"
      and nz': "g_used_comp (gt_body entry_str st m) k \<noteq> 0"
      and new: "g_ret (gt_body entry_str st m) = g_ret st @ new" "k \<notin> comp_keys entry_str new"
      by blast
    from Cons.IH [OF bc' nz'] obtain later
      where later: "g_ret (gt_loop entry_str (gt_body entry_str st m) ms) =
                      g_ret (gt_body entry_str st m) @ later" "k \<notin> comp_keys entry_str later"
      by blast
    from False have "gt_loop entry_str st (m # ms) = gt_loop entry_str (gt_body entry_str st m) ms"
      by simp
    with new later show ?thesis
      by (intro exI [of _ "new @ later"]) (simp add: comp_keys_simps)
  qed
qed

lemma gt_loop_comp_done:
  assumes "g_comp_cnt st = 0" and "g_used_base st k \<noteq> 0"
  shows "\<exists>later. g_ret (gt_loop entry_str st ms) = g_ret st @ later \<and>
           k \<notin> base_keys entry_str later"
  using assms
proof (induction ms arbitrary: st)
  case Nil
  then show ?case by (simp add: base_keys_simps)
next
  case (Cons m ms)
  show ?case
  proof (cases "g_base_cnt st = 0")
    case True
    with Cons.prems(1) show ?thesis by (simp add: base_keys_simps)
  next
    case False
    from gt_body_comp_done [OF Cons.prems(1) False Cons.prems(2), of entry_str m]
    obtain new where cc': "g_comp_cnt (gt_body entry_str st m) = 0"
      and nz': "g_used_base (gt_body entry_str st m) k \<noteq> 0"
      and new: "g_ret (gt_body entry_str st m) = g_ret st @ new" "k \<notin> base_keys entry_str new"
      by blast
    from Cons.IH [OF cc' nz'] obtain later
      where later: "g_ret (gt_loop entry_str (gt_body entry_str st m) ms) =
                      g_ret (gt_body entry_str st m) @ later" "k \<notin> base_keys entry_str later"
      by blast
    from False have "gt_loop entry_str st (m # ms) = gt_loop entry_str (gt_body entry_str st m) ms"
      by simp
    with new later show ?thesis
      by (intro exI [of _ "new @ later"]) (simp add: base_keys_simps)
  qed
qed

text \<open>
  C5. In \<open>pick_gtcomp_matches\<close>, at any point \<open>m\<close> of the walk that the loop reaches
  (\<open>s\<close> is the state after the results \<open>pre\<close> before it):
  a comp (resp. base) that no emitted record carries yet and that is written as a
  consolation, the base (resp. comp) count being zero, has its counter set to 9, is
  emitted without the other side, and is carried by no record emitted later;
  when the result is taken as a pair, a side that an emitted record already carries is
  null in the copy, the copy is appended unless both sides are null, and each counter
  grows by the other side's allele count;
  and no record of the output has both sides null.
\<close>

theorem pick_gtcomp_matches_emissions:
  assumes mat: "matrix_of bs cs mat"
      and perm: "mset (np_sort (concat mat)) = mset (concat mat)"
      and walk: "walk_order np_sort mat = pre @ m # post"
      and s: "s = gt_loop entry_str (gt_init mat) pre"
      and go: "\<not> (g_base_cnt s = 0 \<and> g_comp_cnt s = 0)"
  shows "(g_base_cnt s = 0 \<and> \<not> gt_comp_is_used entry_str s m \<and>
          side_key entry_str (comp m) \<notin> comp_keys entry_str (g_ret s) \<longrightarrow>
            g_used_comp (gt_body entry_str s m) (side_key entry_str (comp m)) = 9 \<and>
            (\<exists>later. pick_gtcomp_matches np_sort entry_str mat =
                       g_ret s @ [m\<lparr>base := None, state := False, multi := True\<rparr>] @ later \<and>
                     side_key entry_str (comp m) \<notin> comp_keys entry_str later))
       \<and> (g_comp_cnt s = 0 \<and> \<not> gt_base_is_used entry_str s m \<and>
          side_key entry_str (base m) \<notin> base_keys entry_str (g_ret s) \<longrightarrow>
            g_used_base (gt_body entry_str s m) (side_key entry_str (base m)) = 9 \<and>
            (\<exists>later. pick_gtcomp_matches np_sort entry_str mat =
                       g_ret s @ [m\<lparr>comp := None, state := False, multi := True\<rparr>] @ later \<and>
                     side_key entry_str (base m) \<notin> base_keys entry_str later))
       \<and> (g_base_cnt s \<noteq> 0 \<and> g_comp_cnt s \<noteq> 0 \<and>
          \<not> gt_base_is_used entry_str s m \<and> \<not> gt_comp_is_used entry_str s m \<longrightarrow>
            base (gt_paired_copy entry_str s m) =
              (if side_key entry_str (base m) \<in> base_keys entry_str (g_ret s) then None else base m) \<and>
            comp (gt_paired_copy entry_str s m) =
              (if side_key entry_str (comp m) \<in> comp_keys entry_str (g_ret s) then None else comp m) \<and>
            g_ret (gt_body entry_str s m) =
              (if base (gt_paired_copy entry_str s m) = None \<and> comp (gt_paired_copy entry_str s m) = None
               then g_ret s else g_ret s @ [gt_paired_copy entry_str s m]) \<and>
            g_used_base (gt_body entry_str s m) (side_key entry_str (base m)) =
              g_used_base s (side_key entry_str (base m)) + comp_gt_count m \<and>
            g_used_comp (gt_body entry_str s m) (side_key entry_str (comp m)) =
              g_used_comp s (side_key entry_str (comp m)) + base_gt_count m)
       \<and> (\<forall>r \<in> set (pick_gtcomp_matches np_sort entry_str mat). base r \<noteq> None \<or> comp r \<noteq> None)"
proof -
  let ?bk = "side_key entry_str (base m)" and ?ck = "side_key entry_str (comp m)"
  from perm have sets: "set (np_sort (concat mat)) = set (concat mat)" by (rule mset_eq_setD)
  then have walk_set: "set (walk_order np_sort mat) = set (concat mat)"
    by (simp add: walk_order_def)
  with matrix_of_cells [OF mat] have cells: "\<forall>x \<in> set (walk_order np_sort mat). cell_of bs cs x"
    by simp
  from cells walk have cells_pre: "\<forall>x \<in> set pre. cell_of bs cs x" by simp
  have inv: "gt_inv entry_str s"
    unfolding s using gt_inv_init cells_pre by (rule gt_loop_inv)
  have final: "gt_inv entry_str (gt_loop entry_str (gt_init mat) (walk_order np_sort mat))"
    using gt_inv_init cells by (rule gt_loop_inv)
  have pick: "pick_gtcomp_matches np_sort entry_str mat =
          g_ret (gt_loop entry_str (gt_body entry_str s m) post)"
    using go by (auto simp add: pick_gtcomp_matches_def walk gt_loop_append s [symmetric])
  from inv have zb: "g_used_base s k = 0 \<longleftrightarrow> k \<notin> base_keys entry_str (g_ret s)"
    and zc: "g_used_comp s k = 0 \<longleftrightarrow> k \<notin> comp_keys entry_str (g_ret s)" for k
    by (auto simp: gt_inv_def)
  have A: "g_used_comp (gt_body entry_str s m) ?ck = 9 \<and>
            (\<exists>later. pick_gtcomp_matches np_sort entry_str mat =
                       g_ret s @ [m\<lparr>base := None, state := False, multi := True\<rparr>] @ later \<and>
                     ?ck \<notin> comp_keys entry_str later)"
    if h: "g_base_cnt s = 0" "\<not> gt_comp_is_used entry_str s m" "?ck \<notin> comp_keys entry_str (g_ret s)"
  proof -
    from h have body: "gt_body entry_str s m = gt_only_comp entry_str s m"
      by (simp add: gt_body_def Let_def)
    from h(3) zc have zero: "g_used_comp s ?ck = 0" by simp
    from body zero have nine: "g_used_comp (gt_body entry_str s m) ?ck = 9"
      and ret: "g_ret (gt_body entry_str s m) =
                  g_ret s @ [m\<lparr>base := None, state := False, multi := True\<rparr>]"
      by (simp_all add: gt_only_comp_def Let_def)
    from body h(1) have fin: "g_base_cnt (gt_body entry_str s m) = 0"
      by (simp add: gt_only_comp_def Let_def)
    from nine have "g_used_comp (gt_body entry_str s m) ?ck \<noteq> 0" by simp
    from gt_loop_base_done [OF fin this, of entry_str post] obtain later
      where "g_ret (gt_loop entry_str (gt_body entry_str s m) post) =
               g_ret (gt_body entry_str s m) @ later" "?ck \<notin> comp_keys entry_str later"
      by blast
    with pick ret nine show ?thesis by simp
  qed
  have B: "g_used_base (gt_body entry_str s m) ?bk = 9 \<and>
            (\<exists>later. pick_gtcomp_matches np_sort entry_str mat =
                       g_ret s @ [m\<lparr>comp := None, state := False, multi := True\<rparr>] @ later \<and>
                     ?bk \<notin> base_keys entry_str later)"
    if h: "g_comp_cnt s = 0" "\<not> gt_base_is_used entry_str s m" "?bk \<notin> base_keys entry_str (g_ret s)"
  proof -
    from h(1) go have "g_base_cnt s \<noteq> 0" by simp
    with h have body: "gt_body entry_str s m = gt_only_base entry_str s m"
      by (simp add: gt_body_def Let_def)
    from h(3) zb have zero: "g_used_base s ?bk = 0" by simp
    from body zero have nine: "g_used_base (gt_body entry_str s m) ?bk = 9"
      and ret: "g_ret (gt_body entry_str s m) =
                  g_ret s @ [m\<lparr>comp := None, state := False, multi := True\<rparr>]"
      by (simp_all add: gt_only_base_def Let_def)
    from body h(1) have fin: "g_comp_cnt (gt_body entry_str s m) = 0"
      by (simp add: gt_only_base_def Let_def)
    from nine have "g_used_base (gt_body entry_str s m) ?bk \<noteq> 0" by simp
    from gt_loop_comp_done [OF fin this, of entry_str post] obtain later
      where "g_ret (gt_loop entry_str (gt_body entry_str s m) post) =
               g_ret (gt_body entry_str s m) @ later" "?bk \<notin> base_keys entry_str later"
      by blast
    with pick ret nine show ?thesis by simp
  qed
  have C: "base (gt_paired_copy entry_str s m) =
              (if ?bk \<in> base_keys entry_str (g_ret s) then None else base m) \<and>
            comp (gt_paired_copy entry_str s m) =
              (if ?ck \<in> comp_keys entry_str (g_ret s) then None else comp m) \<and>
            g_ret (gt_body entry_str s m) =
              (if base (gt_paired_copy entry_str s m) = None \<and> comp (gt_paired_copy entry_str s m) = None
               then g_ret s else g_ret s @ [gt_paired_copy entry_str s m]) \<and>
            g_used_base (gt_body entry_str s m) ?bk = g_used_base s ?bk + comp_gt_count m \<and>
            g_used_comp (gt_body entry_str s m) ?ck = g_used_comp s ?ck + base_gt_count m"
    if h: "g_base_cnt s \<noteq> 0" "g_comp_cnt s \<noteq> 0" "\<not> gt_base_is_used entry_str s m"
          "\<not> gt_comp_is_used entry_str s m"
  proof -
    from h have body: "gt_body entry_str s m = gt_both entry_str s m"
      by (simp add: gt_body_def Let_def)
    show ?thesis
      unfolding body gt_both_fields gt_paired_copy_sides using zb [of ?bk] zc [of ?ck]
      by simp
  qed
  have D: "\<forall>r \<in> set (pick_gtcomp_matches np_sort entry_str mat). base r \<noteq> None \<or> comp r \<noteq> None"
    using final by (simp add: gt_inv_def pick_gtcomp_matches_def)
  from A B C D show ?thesis by blast
qed

lemma fixture_keys:
  "vcf_text ins_base = ''chr1:100:G:GAAAA''" "vcf_text ins_100 = ''chr1:100:G:GAAAA''"
  "vcf_text ins_101 = ''chr1:101:G:GAAAA''" "vcf_text ins_base_101 = ''chr1:101:G:GAAAA''"
  by (simp_all add: vcf_text_def ins_base_def ins_base_101_def ins_100_def ins_101_def
        str_int_def str_nat.simps digit_char_def)

theorem pick_gtcomp_matches_emissions_witness:
  "base (gt_paired_copy vcf_text (gt_loop vcf_text (gt_init hom_matrix) [hom_100]) hom_101) = None
   \<and> comp (gt_paired_copy vcf_text (gt_loop vcf_text (gt_init hom_matrix) [hom_100]) hom_101) =
       Some ins_101
   \<and> g_ret (gt_body vcf_text (gt_loop vcf_text (gt_init hom_matrix) [hom_100]) hom_101) =
       [hom_100, hom_101\<lparr>base := None\<rparr>]
   \<and> g_used_base (gt_body vcf_text (gt_loop vcf_text (gt_init hom_matrix) [hom_100]) hom_101)
         (vcf_text ins_base) = 2
   \<and> g_used_comp (gt_body vcf_text (gt_loop vcf_text (gt_init het_matrix) [het_100]) het_101)
         (vcf_text ins_101) = 9
   \<and> (\<exists>later. pick_gtcomp_matches (sort_by match_lt) vcf_text het_matrix =
                [het_100, het_101\<lparr>base := None, state := False, multi := True\<rparr>] @ later \<and>
              vcf_text ins_101 \<notin> comp_keys vcf_text later)
   \<and> g_used_base (gt_body vcf_text (gt_loop vcf_text (gt_init two_base_matrix) [het_100]) het_b101)
         (vcf_text ins_base_101) = 9
   \<and> (\<exists>later. pick_gtcomp_matches (sort_by match_lt) vcf_text two_base_matrix =
                [het_100, het_b101\<lparr>comp := None, state := False, multi := True\<rparr>] @ later \<and>
              vcf_text ins_base_101 \<notin> base_keys vcf_text later)"
proof -
  note defs = hom_100_def hom_101_def het_100_def het_101_def het_b101_def
  note run = gt_init_def shape_def gt_body_def gt_both_def gt_paired_copy_def
    gt_base_is_used_def gt_comp_is_used_def side_key_def Let_def fixture_keys
  (* a homozygous base taken twice: the second pair is emitted without the base *)
  let ?s1 = "gt_loop vcf_text (gt_init hom_matrix) [hom_100]"
  have m1: "matrix_of [ins_base] [ins_100, ins_101] hom_matrix"
    by (simp add: matrix_of_def hom_matrix_def defs)
  have p1: "mset (sort_by match_lt (concat hom_matrix)) = mset (concat hom_matrix)"
    by (simp add: sort_by_def match_lt_def hom_matrix_def defs)
  have w1: "walk_order (sort_by match_lt) hom_matrix = [hom_100] @ hom_101 # []"
    by (simp add: walk_order_def sort_by_def match_lt_def hom_matrix_def defs)
  have s1: "g_base_cnt ?s1 = 1" "g_comp_cnt ?s1 = 1" "g_ret ?s1 = [hom_100]"
      "g_used_base ?s1 ''chr1:100:G:GAAAA'' = 1" "g_used_comp ?s1 ''chr1:101:G:GAAAA'' = 0"
    by (simp_all add: run hom_matrix_def defs)
  have k1: "side_key vcf_text (base hom_101) = ''chr1:100:G:GAAAA''"
      "side_key vcf_text (comp hom_101) = ''chr1:101:G:GAAAA''"
    by (simp_all add: side_key_def fixture_keys defs)
  have g1: "\<not> (g_base_cnt ?s1 = 0 \<and> g_comp_cnt ?s1 = 0)" using s1 by simp
  have a1: "g_base_cnt ?s1 \<noteq> 0 \<and> g_comp_cnt ?s1 \<noteq> 0 \<and>
            \<not> gt_base_is_used vcf_text ?s1 hom_101 \<and> \<not> gt_comp_is_used vcf_text ?s1 hom_101"
    using s1 k1 by (simp add: gt_base_is_used_def gt_comp_is_used_def defs)
  have in1: "side_key vcf_text (base hom_101) \<in> base_keys vcf_text (g_ret ?s1)"
      "side_key vcf_text (comp hom_101) \<notin> comp_keys vcf_text (g_ret ?s1)"
    unfolding s1 k1 by (simp_all add: base_keys_def comp_keys_def fixture_keys defs)
  from pick_gtcomp_matches_emissions
         [where np_sort = "sort_by match_lt" and entry_str = vcf_text and s = ?s1,
          OF m1 p1 w1 refl g1] a1
  have r1: "base (gt_paired_copy vcf_text ?s1 hom_101) = None"
      "comp (gt_paired_copy vcf_text ?s1 hom_101) = Some ins_101"
      "g_ret (gt_body vcf_text ?s1 hom_101) = [hom_100, gt_paired_copy vcf_text ?s1 hom_101]"
      "g_used_base (gt_body vcf_text ?s1 hom_101) (vcf_text ins_base) = 2"
    using in1 s1 k1 by (simp_all add: fixture_keys defs)
  have copy1: "gt_paired_copy vcf_text ?s1 hom_101 = hom_101\<lparr>base := None\<rparr>"
    using s1 k1 by (simp add: gt_paired_copy_def Let_def)
  (* a heterozygous base: the second comp is a consolation *)
  let ?s2 = "gt_loop vcf_text (gt_init het_matrix) [het_100]"
  have m2: "matrix_of [ins_base] [ins_100, ins_101] het_matrix"
    by (simp add: matrix_of_def het_matrix_def defs)
  have p2: "mset (sort_by match_lt (concat het_matrix)) = mset (concat het_matrix)"
    by (simp add: sort_by_def match_lt_def het_matrix_def defs)
  have w2: "walk_order (sort_by match_lt) het_matrix = [het_100] @ het_101 # []"
    by (simp add: walk_order_def sort_by_def match_lt_def het_matrix_def defs)
  have s2: "g_base_cnt ?s2 = 0" "g_comp_cnt ?s2 = 1" "g_ret ?s2 = [het_100]"
      "g_used_comp ?s2 ''chr1:101:G:GAAAA'' = 0"
    by (simp_all add: run het_matrix_def defs)
  have k2: "side_key vcf_text (comp het_101) = ''chr1:101:G:GAAAA''"
    by (simp add: side_key_def fixture_keys defs)
  have g2: "\<not> (g_base_cnt ?s2 = 0 \<and> g_comp_cnt ?s2 = 0)" using s2 by simp
  have a2: "g_base_cnt ?s2 = 0 \<and> \<not> gt_comp_is_used vcf_text ?s2 het_101 \<and>
            side_key vcf_text (comp het_101) \<notin> comp_keys vcf_text (g_ret ?s2)"
    using s2 k2 by (simp add: gt_comp_is_used_def comp_keys_def fixture_keys defs)
  from pick_gtcomp_matches_emissions
         [where np_sort = "sort_by match_lt" and entry_str = vcf_text and s = ?s2,
          OF m2 p2 w2 refl g2] a2
  have r2: "g_used_comp (gt_body vcf_text ?s2 het_101) (vcf_text ins_101) = 9"
      "\<exists>later. pick_gtcomp_matches (sort_by match_lt) vcf_text het_matrix =
                [het_100, het_101\<lparr>base := None, state := False, multi := True\<rparr>] @ later \<and>
              vcf_text ins_101 \<notin> comp_keys vcf_text later"
    using s2 k2 by (simp_all add: fixture_keys)
  (* two heterozygous bases and one comp: the second base is a consolation *)
  let ?s3 = "gt_loop vcf_text (gt_init two_base_matrix) [het_100]"
  have m3: "matrix_of [ins_base, ins_base_101] [ins_100] two_base_matrix"
    by (simp add: matrix_of_def two_base_matrix_def defs)
  have p3: "mset (sort_by match_lt (concat two_base_matrix)) = mset (concat two_base_matrix)"
    by (simp add: sort_by_def match_lt_def two_base_matrix_def defs)
  have w3: "walk_order (sort_by match_lt) two_base_matrix = [het_100] @ het_b101 # []"
    by (simp add: walk_order_def sort_by_def match_lt_def two_base_matrix_def defs)
  have s3: "g_base_cnt ?s3 = 1" "g_comp_cnt ?s3 = 0" "g_ret ?s3 = [het_100]"
      "g_used_base ?s3 ''chr1:101:G:GAAAA'' = 0"
    by (simp_all add: run two_base_matrix_def defs)
  have k3: "side_key vcf_text (base het_b101) = ''chr1:101:G:GAAAA''"
    by (simp add: side_key_def fixture_keys defs)
  have g3: "\<not> (g_base_cnt ?s3 = 0 \<and> g_comp_cnt ?s3 = 0)" using s3 by simp
  have a3: "g_comp_cnt ?s3 = 0 \<and> \<not> gt_base_is_used vcf_text ?s3 het_b101 \<and>
            side_key vcf_text (base het_b101) \<notin> base_keys vcf_text (g_ret ?s3)"
    using s3 k3 by (simp add: gt_base_is_used_def base_keys_def fixture_keys defs)
  from pick_gtcomp_matches_emissions
         [where np_sort = "sort_by match_lt" and entry_str = vcf_text and s = ?s3,
          OF m3 p3 w3 refl g3] a3
  have r3: "g_used_base (gt_body vcf_text ?s3 het_b101) (vcf_text ins_base_101) = 9"
      "\<exists>later. pick_gtcomp_matches (sort_by match_lt) vcf_text two_base_matrix =
                [het_100, het_b101\<lparr>comp := None, state := False, multi := True\<rparr>] @ later \<and>
              vcf_text ins_base_101 \<notin> base_keys vcf_text later"
    using s3 k3 by (simp_all add: fixture_keys)
  from r1 copy1 r2 r3 show ?thesis by simp
qed

end
